theory Spec2Isabelle
  imports Complex_Main
begin

section \<open>JavaScript values used by the pipeline\<close>

text \<open>
  A property that is a string, or absent (\<open>undefined\<close>, \<open>null\<close>), is a
  \<open>string option\<close>. JavaScript treats the absent value and the empty string as falsy.
\<close>

definition truthy :: "string option \<Rightarrow> bool" where
  "truthy v = (case v of None \<Rightarrow> False | Some s \<Rightarrow> s \<noteq> [])"

text \<open>\<open>a || b\<close> on such values: the left operand when it is truthy, else the right one.\<close>

definition js_or :: "string option \<Rightarrow> string option \<Rightarrow> string option" where
  "js_or a b = (if truthy a then a else b)"

text \<open>\<open>a || "literal"\<close>, whose value is always a string.\<close>

definition or_str :: "string option \<Rightarrow> string \<Rightarrow> string" where
  "or_str a d = (case a of None \<Rightarrow> d | Some s \<Rightarrow> if s \<noteq> [] then s else d)"

text \<open>\<open>a || b || null\<close> on numbers, where zero and the absent value are falsy.\<close>

definition num_or_null :: "int option \<Rightarrow> int option \<Rightarrow> int option" where
  "num_or_null a b =
     (if a \<noteq> None \<and> a \<noteq> Some 0 then a else if b \<noteq> None \<and> b \<noteq> Some 0 then b else None)"

text \<open>A value interpolated into a template literal.\<close>

definition interpolate :: "string option \<Rightarrow> string" where
  "interpolate v = (case v of None \<Rightarrow> ''undefined'' | Some s \<Rightarrow> s)"

text \<open>
  \<open>Array.prototype.slice(0, end)\<close>: a negative end counts from the end of the array
  (an end that is not a number acts as zero).
\<close>

definition slice0 :: "'a list \<Rightarrow> int \<Rightarrow> 'a list" where
  "slice0 xs e = (if e < 0 then take (nat (int (length xs) + e)) xs else take (nat e) xs)"

section \<open>The record store (utils.js)\<close>

text \<open>
  A status folder holds files \<open><id>.json\<close>. What \<open>readJson\<close> makes of a file is
  either a parsed object or nothing: \<open>Unreadable\<close> stands for a file that cannot be
  read or parsed (\<open>readJson\<close> returns \<open>null\<close>), and for one whose JSON value is
  falsy, which every caller drops like \<open>null\<close>; other JSON values that are not
  objects are outside the model. A folder is the list of its \<open>.json\<close> files in
  directory-listing order, keyed by the id (the file name without its extension); a
  folder that does not exist lists as the empty one, and \<open>ensureDirs\<close>, which creates
  the missing folders before every write, has no other effect.
\<close>

datatype 'a json_file = Unreadable | Parsed 'a

type_synonym 'a folder = "(string \<times> 'a json_file) list"

definition existsSync :: "'a folder \<Rightarrow> string \<Rightarrow> bool" where
  "existsSync dir name = (name \<in> set (map fst dir))"

text \<open>
  \<open>fs.writeFileSync\<close>: an existing file is overwritten where it stands, a new one is
  added to the directory.
\<close>

fun writeFileSync :: "string \<Rightarrow> 'a json_file \<Rightarrow> 'a folder \<Rightarrow> 'a folder" where
  "writeFileSync name c [] = [(name, c)]"
| "writeFileSync name c ((n, x) # dir) =
     (if n = name then (name, c) # dir else (n, x) # writeFileSync name c dir)"

definition unlinkSync :: "string \<Rightarrow> 'a folder \<Rightarrow> 'a folder" where
  "unlinkSync name dir = filter (\<lambda>entry. fst entry \<noteq> name) dir"

definition listIds :: "'a folder \<Rightarrow> string list" where
  "listIds dir = map fst dir"

definition readJson :: "'a folder \<Rightarrow> string \<Rightarrow> 'a option" where
  "readJson dir name =
     (case map_of dir name of Some (Parsed x) \<Rightarrow> Some x | _ \<Rightarrow> None)"

definition writeJson :: "string \<Rightarrow> 'a \<Rightarrow> 'a folder \<Rightarrow> 'a folder" where
  "writeJson name data dir = writeFileSync name (Parsed data) dir"

section \<open>Outreach records\<close>

record variant_ids =
  template_id :: "string option"
  template_name :: "string option"
  ouro_description_id :: "string option"
  call_to_action_id :: "string option"

text \<open>
  The email file format. \<open>extra\<close> holds any further own properties of the object,
  which an object spread copies along.
\<close>

record email =
  award_id :: string
  pi_name :: string
  pi_email :: "string option"
  institution :: string
  award_title :: string
  award_amount :: "int option"
  subject :: string
  body :: string
  variants :: variant_ids
  generated_at :: string
  sent_at :: "string option"
  resend_id :: "string option"
  extra :: "(string \<times> string) list"

section \<open>Award records (awards.js)\<close>

text \<open>An entry of the \<open>pi\<close> array and the \<open>inst\<close> object of an NSF award.\<close>

record pi_entry =
  pi_role :: "string option"
  pi_first_name :: "string option"
  pi_last_name :: "string option"
  pi_email_addr :: "string option"
  pi_full_name :: "string option"

record inst_info =
  inst_name :: "string option"

text \<open>
  An award object. As parsed from its file, the aliases \<open>title\<close>, \<open>abstractText\<close>,
  \<open>awardNumber\<close> and the bookkeeping properties \<open>_id\<close>, \<open>_year\<close> (here
  \<open>file_id\<close>, \<open>file_year\<close>) may be absent, so \<open>'txt\<close> is \<open>string option\<close>;
  \<open>loadAwards\<close> assigns all of them, and in the awards it returns \<open>'txt\<close> is
  \<open>string\<close>. The \<open>pi\<close> array is the field \<open>pi_arr\<close>.
\<close>

record 'txt award =
  awd_titl_txt :: "string option"
  awd_abstract_narration :: "string option"
  awd_id :: "string option"
  title :: 'txt
  abstractText :: 'txt
  awardNumber :: 'txt
  pi_arr :: "pi_entry list option"
  inst :: "inst_info option"
  piFirstName :: "string option"
  piLastName :: "string option"
  piEmail :: "string option"
  awardeeName :: "string option"
  awd_amount :: "int option"
  tot_intn_awd_amt :: "int option"
  file_id :: 'txt
  file_year :: 'txt

section \<open>Style variants (templates/variants.json)\<close>

text \<open>
  An item of one of the three lists of \<open>variants.json\<close>; \<open>item_id\<close> and
  \<open>item_name\<close> are its \<open>id\<close> and \<open>name\<close>. A missing \<open>enabled\<close> is
  \<open>None\<close>.
\<close>

record variant_item =
  item_id :: "string option"
  item_name :: "string option"
  angle :: "string option"
  tone :: "string option"
  subject_line_style :: "string option"
  sign_off_style :: "string option"
  content :: "string option"
  enabled :: "bool option"

record variants_file =
  templates :: "variant_item list"
  ouro_descriptions :: "variant_item list"
  call_to_actions :: "variant_item list"

section \<open>External collaborators and the world\<close>

text \<open>The request handed to \<open>resend.emails.send\<close>: from, to, subject, text.\<close>

datatype send_request = SendRequest "string option" string string string

text \<open>
  What the delivery provider does with a request: the call throws, or it returns an
  error payload (\<open>result.error.message\<close>), or it returns data whose \<open>id\<close> may be
  missing (\<open>result.data?.id\<close>).
\<close>

datatype resend_result = Thrown string | ErrorPayload string | Data "string option"

text \<open>
  The prompt is a fixed text with holes; it is represented by the values that fill the
  holes: PI name, award title, abstract, the description blurb, angle, tone, subject
  line style and sign-off style.
\<close>

datatype prompt =
  Prompt string string string "string option" "string option" "string option"
    "string option" "string option"

text \<open>A content block of the model's response; only tool-use blocks carry an input.\<close>

datatype block = ToolUse string "string option" "string option" | OtherBlock

datatype llm_result = LlmThrows string | LlmContent "block list"

text \<open>
  The observable effects outside the record store, in the order they happen: a request
  handed to the delivery provider, a wait of so many milliseconds, a call of the model.
\<close>

datatype event = Dispatch send_request | Sleep int | ModelCall prompt

datatype error =
    ResendKeyNotSet
  | FromEmailRequired
  | NoRecipient
  | ProviderFailure string
  | ENOENT
  | NoValidPIEmail
  | AlreadyProcessed string
  | VariantsNotFound
  | NoEnabledTemplates
  | NoEnabledOuroDescriptions
  | NoEnabledCallToActions
  | TypeError
  | NoToolUse
  | MissingSubjectOrBody
  | ModelFailure string

record world =
  drafts :: "email folder"
  approved :: "email folder"
  sent :: "email folder"
  skipped :: "email folder"
  trace :: "event list"

text \<open>
  The process environment, the external services and the read-only inputs. A service
  answers as a function of what has happened so far and of the request, and the clock is
  read likewise. \<open>awards_dir\<close> maps a year to the files of \<open>awards/<year>\<close>;
  \<open>variants_json\<close> is \<open>None\<close> when \<open>templates/variants.json\<close> does not
  exist.
\<close>

record env =
  RESEND_API_KEY :: "string option"
  FROM_NAME :: "string option"
  resend :: "event list \<Rightarrow> send_request \<Rightarrow> resend_result"
  anthropic :: "event list \<Rightarrow> prompt \<Rightarrow> llm_result"
  clock :: "event list \<Rightarrow> string"
  awards_dir :: "string \<Rightarrow> (string option) award folder"
  variants_json :: "variants_file option"

datatype status = Drafts | Approved | Sent | Skipped

fun DIRS :: "status \<Rightarrow> world \<Rightarrow> email folder" where
  "DIRS Drafts w = drafts w"
| "DIRS Approved w = approved w"
| "DIRS Sent w = sent w"
| "DIRS Skipped w = skipped w"

fun set_dir :: "status \<Rightarrow> email folder \<Rightarrow> world \<Rightarrow> world" where
  "set_dir Drafts d w = w\<lparr>drafts := d\<rparr>"
| "set_dir Approved d w = w\<lparr>approved := d\<rparr>"
| "set_dir Sent d w = w\<lparr>sent := d\<rparr>"
| "set_dir Skipped d w = w\<lparr>skipped := d\<rparr>"

text \<open>
  \<open>moveFile\<close> is \<open>fs.renameSync\<close>: it throws when the source is missing and
  silently replaces an existing target.
\<close>

definition moveFile :: "string \<Rightarrow> status \<Rightarrow> status \<Rightarrow> world \<Rightarrow> error + world" where
  "moveFile name fromFolder toFolder w =
     (case map_of (DIRS fromFolder w) name of
        None \<Rightarrow> Inl ENOENT
      | Some c \<Rightarrow>
          (let w1 = set_dir fromFolder (unlinkSync name (DIRS fromFolder w)) w
           in Inr (set_dir toFolder (writeFileSync name c (DIRS toFolder w1)) w1)))"

text \<open>
  \<open>sleep(ms)\<close> resolves when the timer of \<open>setTimeout(resolve, ms)\<close> fires. The timer
  waits \<open>ms\<close> milliseconds when \<open>ms\<close> lies between 1 and \<open>2^31 - 1\<close>, and one
  millisecond otherwise; the event recorded is the time waited.
\<close>

definition setTimeout :: "int \<Rightarrow> int" where
  "setTimeout ms = (if 1 \<le> ms \<and> ms \<le> 2147483647 then ms else 1)"

definition sleep :: "int \<Rightarrow> world \<Rightarrow> world" where
  "sleep ms w = w\<lparr>trace := trace w @ [Sleep (setTimeout ms)]\<rparr>"

section \<open>The batch sender (send.js)\<close>

definition getApprovedEmails :: "world \<Rightarrow> email list" where
  "getApprovedEmails w =
     List.map_filter (\<lambda>x. x) (map (\<lambda>fid. readJson (approved w) fid) (listIds (approved w)))"

text \<open>The value \<open>sendEmail\<close> returns: the dry-run flag and the provider's id.\<close>

datatype send_result = SendResult bool "string option"

fun resendId :: "send_result \<Rightarrow> string option" where
  "resendId (SendResult dry rid) = rid"

definition sendEmail ::
  "env \<Rightarrow> email \<Rightarrow> bool \<Rightarrow> string option \<Rightarrow> string option \<Rightarrow> world
     \<Rightarrow> (error + send_result) \<times> world" where
  "sendEmail e email dryRun fromEmail fromName w =
     (if \<not> truthy (pi_email email) then (Inl NoRecipient, w)
      else
        let from = (if truthy fromName
                    then Some (interpolate fromName @ '' <'' @ interpolate fromEmail @ ''>'')
                    else fromEmail)
        in if dryRun then (Inr (SendResult True None), w)
           else
             let req = SendRequest from (the (pi_email email)) (subject email) (body email);
                 w1 = w\<lparr>trace := trace w @ [Dispatch req]\<rparr>
             in case resend e (trace w) req of
                  Thrown msg \<Rightarrow> (Inl (ProviderFailure msg), w1)
                | ErrorPayload msg \<Rightarrow> (Inl (ProviderFailure msg), w1)
                | Data rid \<Rightarrow> (Inr (SendResult False rid), w1))"

definition markAsSent :: "env \<Rightarrow> email \<Rightarrow> string option \<Rightarrow> world \<Rightarrow> email \<times> world" where
  "markAsSent e email rid w =
     (let updatedEmail = email\<lparr>sent_at := Some (clock e (trace w)), resend_id := rid\<rparr>;
          w1 = w\<lparr>sent := writeJson (award_id email) updatedEmail (sent w)\<rparr>;
          w2 = (if existsSync (approved w1) (award_id email)
                then w1\<lparr>approved := unlinkSync (award_id email) (approved w1)\<rparr>
                else w1)
      in (updatedEmail, w2))"

text \<open>
  The options of \<open>sendApprovedEmails\<close>, each of which may be left out. The limit and
  the delay are whole numbers, as the command line hands them over after \<open>parseInt\<close>;
  the delay counts seconds.
\<close>

record options =
  limit :: "int option"
  delay :: "int option"
  dryRun :: "bool option"
  fromEmail :: "string option"
  fromName :: "string option"

text \<open>The defaults of the destructured options.\<close>

definition limit_of :: "options \<Rightarrow> int" where
  "limit_of opts = (case limit opts of None \<Rightarrow> 10 | Some l \<Rightarrow> l)"

definition delay_of :: "options \<Rightarrow> int" where
  "delay_of opts = (case delay opts of None \<Rightarrow> 60 | Some d \<Rightarrow> d)"

definition dryRun_of :: "options \<Rightarrow> bool" where
  "dryRun_of opts = (case dryRun opts of None \<Rightarrow> False | Some b \<Rightarrow> b)"

text \<open>The entries of \<open>results.sent\<close> and \<open>results.errors\<close>.\<close>

datatype sent_entry = SentEntry string "string option" string "string option"

datatype error_entry = ErrorEntry string "string option" error

datatype results = Results "sent_entry list" "error_entry list" bool

fun results_sent :: "results \<Rightarrow> sent_entry list" where
  "results_sent (Results s r d) = s"

fun results_errors :: "results \<Rightarrow> error_entry list" where
  "results_errors (Results s r d) = r"

fun push_sent :: "sent_entry \<Rightarrow> results \<Rightarrow> results" where
  "push_sent x (Results s r d) = Results (s @ [x]) r d"

fun push_error :: "error_entry \<Rightarrow> results \<Rightarrow> results" where
  "push_error x (Results s r d) = Results s (r @ [x]) d"

text \<open>
  The body of the \<open>for\<close> loop, for the item at index \<open>i\<close> of \<open>n\<close>: dispatch,
  bookkeeping and the pause, with the \<open>catch\<close> branch as the \<open>Inl\<close> case. The
  \<open>onProgress\<close> callback reports to the caller and is no part of the world; a file
  operation that fails for a reason of the file system is outside the model.
\<close>

definition sendIteration ::
  "env \<Rightarrow> int \<Rightarrow> bool \<Rightarrow> string option \<Rightarrow> string option \<Rightarrow> nat \<Rightarrow> nat \<Rightarrow> email
     \<Rightarrow> results \<times> world \<Rightarrow> results \<times> world" where
  "sendIteration e dly dry fromE fromN n i email rw =
     (case sendEmail e email dry fromE fromN (snd rw) of
        (Inl err, w1) \<Rightarrow>
          (push_error (ErrorEntry (award_id email) (pi_email email) err) (fst rw), w1)
      | (Inr result, w1) \<Rightarrow>
          (let w2 = (if \<not> dry then snd (markAsSent e email (resendId result) w1) else w1);
               r2 = push_sent (SentEntry (award_id email) (pi_email email) (subject email)
                                 (resendId result)) (fst rw);
               w3 = (if \<not> dry \<and> int i < int n - 1 \<and> dly > 0
                     then sleep (dly * 1000) w2 else w2)
           in (r2, w3)))"

fun sendLoop ::
  "env \<Rightarrow> int \<Rightarrow> bool \<Rightarrow> string option \<Rightarrow> string option \<Rightarrow> nat \<Rightarrow> nat \<Rightarrow> email list
     \<Rightarrow> results \<times> world \<Rightarrow> results \<times> world" where
  "sendLoop e dly dry fromE fromN n i [] rw = rw"
| "sendLoop e dly dry fromE fromN n i (email # rest) rw =
     sendLoop e dly dry fromE fromN n (Suc i) rest
       (sendIteration e dly dry fromE fromN n i email rw)"

definition sendApprovedEmails :: "env \<Rightarrow> options \<Rightarrow> world \<Rightarrow> (error + results) \<times> world" where
  "sendApprovedEmails e opts w =
     (let lim = limit_of opts;
          dly = delay_of opts;
          dry = dryRun_of opts
      in if \<not> dry \<and> \<not> truthy (RESEND_API_KEY e) then (Inl ResendKeyNotSet, w)
         else if \<not> truthy (fromEmail opts) \<and> \<not> dry then (Inl FromEmailRequired, w)
         else
           let emails = getApprovedEmails w;
               toSend = slice0 emails lim;
               (r, w') = sendLoop e dly dry (fromEmail opts) (fromName opts)
                           (length toSend) 0 toSend (Results [] [] dry, w)
           in (Inr r, w'))"

section \<open>String helpers\<close>

text \<open>
  Strings are lists of 8-bit characters, read as the code units U+0000 to U+00FF (Basic
  Latin and Latin-1); text with other code units is outside the model. In this range the
  upper-case letters are A to Z (0x41 to 0x5A) and the accented capitals 0xC0 to 0xDE other
  than the multiplication sign 0xD7, and \<open>toLowerCase\<close> adds 0x20 to each of them, which
  sets bit 5; every other character is left as it is.
\<close>

definition upper_case :: "char \<Rightarrow> bool" where
  "upper_case c =
     (let n = (of_char c :: nat)
      in (0x41 \<le> n \<and> n \<le> 0x5A) \<or> (0xC0 \<le> n \<and> n \<le> 0xDE \<and> n \<noteq> 0xD7))"

fun toLowerCase_char :: "char \<Rightarrow> char" where
  "toLowerCase_char (Char b0 b1 b2 b3 b4 b5 b6 b7) =
     (if upper_case (Char b0 b1 b2 b3 b4 b5 b6 b7) then Char b0 b1 b2 b3 b4 True b6 b7
      else Char b0 b1 b2 b3 b4 b5 b6 b7)"

definition toLowerCase :: "string \<Rightarrow> string" where
  "toLowerCase s = map toLowerCase_char s"

fun startsWith :: "string \<Rightarrow> string \<Rightarrow> bool" where
  "startsWith s [] = True"
| "startsWith [] (k # ks) = False"
| "startsWith (c # s) (k # ks) = (c = k \<and> startsWith s ks)"

fun str_includes :: "string \<Rightarrow> string \<Rightarrow> bool" where
  "str_includes [] k = (k = [])"
| "str_includes (c # s) k = (startsWith (c # s) k \<or> str_includes s k)"

text \<open>
  The white space of \<open>trim\<close> and of the white-space class of regular expressions in
  this range: tab, line feed, vertical tab, form feed, carriage return, space and the
  no-break space.
\<close>

definition is_space :: "char \<Rightarrow> bool" where
  "is_space c =
     (c \<in> set [CHR 0x20, CHR 0x09, CHR 0x0A, CHR 0x0B, CHR 0x0C, CHR 0x0D, CHR 0xA0])"

definition trim :: "string \<Rightarrow> string" where
  "trim s = rev (dropWhile is_space (rev (dropWhile is_space s)))"

text \<open>\<open>s.split(c)\<close> for a one-character separator.\<close>

fun split :: "char \<Rightarrow> string \<Rightarrow> string list" where
  "split c [] = [[]]"
| "split c (x # xs) =
     (if x = c then [] # split c xs
      else (case split c xs of [] \<Rightarrow> [[x]] | l # ls \<Rightarrow> (x # l) # ls))"

text \<open>\<open>s.split(/[\s,]+/).filter(Boolean)\<close>: the maximal runs of other characters.\<close>

fun split_words :: "string \<Rightarrow> string \<Rightarrow> string list" where
  "split_words cur [] = (if cur = [] then [] else [cur])"
| "split_words cur (c # cs) =
     (if is_space c \<or> c = CHR '',''
      then (if cur = [] then split_words [] cs else cur # split_words [] cs)
      else split_words (cur @ [c]) cs)"

fun join :: "string \<Rightarrow> string list \<Rightarrow> string" where
  "join sep [] = []"
| "join sep [x] = x"
| "join sep (x # y # ys) = x @ sep @ join sep (y # ys)"

section \<open>Loading awards (utils.js, awards.js)\<close>

definition matchesKeywords :: "string \<Rightarrow> string list \<Rightarrow> bool" where
  "matchesKeywords text keywords =
     (if keywords = [] then True
      else if text = [] then False
      else (let lowerText = toLowerCase text
            in list_ex (\<lambda>kw. str_includes lowerText (toLowerCase kw)) keywords))"

definition listAwardIds :: "env \<Rightarrow> string \<Rightarrow> string list" where
  "listAwardIds e year = listIds (awards_dir e year)"

definition loadAward :: "env \<Rightarrow> string \<Rightarrow> string \<Rightarrow> (string option) award option" where
  "loadAward e awardId year = readJson (awards_dir e year) awardId"

text \<open>
  What the loop of \<open>loadAwards\<close> makes of a parsed award: the three assignments, then
  the copy with \<open>_id\<close> and \<open>_year\<close>.
\<close>

definition normalize :: "string \<Rightarrow> string \<Rightarrow> (string option) award \<Rightarrow> string award" where
  "normalize fid year award =
     \<lparr>awd_titl_txt = awd_titl_txt award,
      awd_abstract_narration = awd_abstract_narration award,
      awd_id = awd_id award,
      title = or_str (js_or (awd_titl_txt award) (title award)) [],
      abstractText = or_str (js_or (awd_abstract_narration award) (abstractText award)) [],
      awardNumber = or_str (js_or (awd_id award) (awardNumber award)) fid,
      pi_arr = pi_arr award, inst = inst award,
      piFirstName = piFirstName award, piLastName = piLastName award,
      piEmail = piEmail award, awardeeName = awardeeName award,
      awd_amount = awd_amount award, tot_intn_awd_amt = tot_intn_awd_amt award,
      file_id = fid, file_year = year\<rparr>"

definition searchText :: "string award \<Rightarrow> string" where
  "searchText award = title award @ '' '' @ abstractText award"

fun loadAwards_loop :: "env \<Rightarrow> string \<Rightarrow> string list \<Rightarrow> string list \<Rightarrow> string award list" where
  "loadAwards_loop e year keywords [] = []"
| "loadAwards_loop e year keywords (fid # ids) =
     (case loadAward e fid year of
        None \<Rightarrow> loadAwards_loop e year keywords ids
      | Some award \<Rightarrow>
          (let award' = normalize fid year award
           in if matchesKeywords (searchText award') keywords
              then award' # loadAwards_loop e year keywords ids
              else loadAwards_loop e year keywords ids))"

definition loadAwards :: "env \<Rightarrow> string \<Rightarrow> string list \<Rightarrow> string award list" where
  "loadAwards e year keywords = loadAwards_loop e year keywords (listAwardIds e year)"

text \<open>
  The object \<open>extractPIInfo\<close> returns: piFirstName, piLastName, piName, piEmail,
  institution.
\<close>

datatype pi_info = PIInfo string string string "string option" string

fun info_piName :: "pi_info \<Rightarrow> string" where
  "info_piName (PIInfo f l n m i) = n"

fun info_piEmail :: "pi_info \<Rightarrow> string option" where
  "info_piEmail (PIInfo f l n m i) = m"

fun info_institution :: "pi_info \<Rightarrow> string" where
  "info_institution (PIInfo f l n m i) = i"

definition empty_pi :: pi_entry where
  "empty_pi = \<lparr>pi_role = None, pi_first_name = None, pi_last_name = None,
                pi_email_addr = None, pi_full_name = None\<rparr>"

definition extractPIInfo :: "'txt award \<Rightarrow> pi_info" where
  "extractPIInfo award =
     (let piData =
            (case pi_arr award of
               None \<Rightarrow> empty_pi
             | Some ps \<Rightarrow>
                 (case List.find (\<lambda>p. pi_role p = Some ''Principal Investigator'') ps of
                    Some p \<Rightarrow> p
                  | None \<Rightarrow> (case ps of [] \<Rightarrow> empty_pi | p # _ \<Rightarrow> p)));
          firstName = or_str (js_or (pi_first_name piData) (piFirstName award)) [];
          lastName = or_str (js_or (pi_last_name piData) (piLastName award)) [];
          email = (let m = js_or (pi_email_addr piData) (piEmail award)
                   in if truthy m then m else None);
          institution =
            or_str (js_or (case inst award of None \<Rightarrow> None | Some i \<Rightarrow> inst_name i)
                          (awardeeName award)) []
      in PIInfo firstName lastName
           (or_str (pi_full_name piData) (trim (firstName @ '' '' @ lastName)))
           email institution)"

definition hasValidContact :: "'txt award \<Rightarrow> bool" where
  "hasValidContact award =
     (let m = info_piEmail (extractPIInfo award)
      in truthy m \<and> str_includes (the m) ''@'')"

section \<open>Draft generation (generate.js)\<close>

text \<open>
  The generator that filters the disabled variants and checks, before the model call,
  that the award is not processed yet. The three values that \<open>Math.random()\<close> returns
  in \<open>selectVariants\<close> are a parameter.
\<close>

definition loadAllVariants :: "env \<Rightarrow> error + variants_file" where
  "loadAllVariants e = (case variants_json e of None \<Rightarrow> Inl VariantsNotFound | Some v \<Rightarrow> Inr v)"

text \<open>
  \<open>randomSelect\<close> with the value \<open>r\<close> drawn by \<open>Math.random()\<close>; an index outside
  the array reads \<open>undefined\<close>.
\<close>

definition randomSelect :: "rat \<Rightarrow> 'a list \<Rightarrow> 'a option" where
  "randomSelect r arr =
     (let i = \<lfloor>r * of_nat (length arr)\<rfloor>
      in if 0 \<le> i \<and> i < int (length arr) then Some (arr ! nat i) else None)"

definition filterEnabled :: "variant_item list \<Rightarrow> variant_item list" where
  "filterEnabled items = filter (\<lambda>item. enabled item \<noteq> Some False) items"

text \<open>The object \<open>selectVariants\<close> returns: template, ouro_description, call_to_action.\<close>

datatype selection = Selection "variant_item option" "variant_item option" "variant_item option"

definition selectVariants :: "env \<Rightarrow> rat \<times> rat \<times> rat \<Rightarrow> error + selection" where
  "selectVariants e rnd =
     (case loadAllVariants e of
        Inl err \<Rightarrow> Inl err
      | Inr all \<Rightarrow>
          (let enabledTemplates = filterEnabled (templates all);
               enabledOuroDescriptions = filterEnabled (ouro_descriptions all);
               enabledCallToActions = filterEnabled (call_to_actions all)
           in if length enabledTemplates = 0 then Inl NoEnabledTemplates
              else if length enabledOuroDescriptions = 0 then Inl NoEnabledOuroDescriptions
              else if length enabledCallToActions = 0 then Inl NoEnabledCallToActions
              else Inr (Selection
                          (randomSelect (fst rnd) enabledTemplates)
                          (randomSelect (fst (snd rnd)) enabledOuroDescriptions)
                          (randomSelect (snd (snd rnd)) enabledCallToActions))))"

text \<open>
  The style guide: angle, tone, subject_line_style, sign_off_style, ouro_description,
  call_to_action. Reading a property of \<open>undefined\<close> throws.
\<close>

datatype style_guide =
  StyleGuide "string option" "string option" "string option" "string option"
    "string option" "string option"

fun buildStyleGuide :: "selection \<Rightarrow> error + style_guide" where
  "buildStyleGuide (Selection (Some t) (Some d) (Some c)) =
     Inr (StyleGuide (angle t) (tone t) (subject_line_style t) (sign_off_style t)
            (content d) (content c))"
| "buildStyleGuide _ = Inl TypeError"

fun buildPrompt :: "string award \<Rightarrow> style_guide \<Rightarrow> prompt" where
  "buildPrompt award (StyleGuide ang ton subj sign ouro cta) =
     Prompt (info_piName (extractPIInfo award)) (title award) (abstractText award)
       ouro ang ton subj sign"

definition isAlreadyProcessed :: "world \<Rightarrow> string \<Rightarrow> bool" where
  "isAlreadyProcessed w awardId =
     (awardId \<in> set (listIds (drafts w) @ listIds (approved w) @ listIds (sent w)
                       @ listIds (skipped w)))"

definition getFirstName :: "string \<Rightarrow> string" where
  "getFirstName fullName =
     (if fullName = [] then []
      else (case split CHR '' '' fullName of [] \<Rightarrow> [] | x # _ \<Rightarrow> x))"

text \<open>
  The end of \<open>generateEmail\<close>: a comma after a bare closing word, then the signature.
\<close>

definition sign_body :: "string \<Rightarrow> string \<Rightarrow> string" where
  "sign_body senderName modelBody =
     (let firstName = getFirstName senderName;
          body0 = trim modelBody;
          lines = split CHR 0x0A body0;
          lastLine = trim (last lines);
          words = split_words [] lastLine;
          lastWord = (if words = [] then None else Some (last words));
          body1 = (if lastWord \<in> Some ` set [''Best'', ''Cheers'', ''Thanks'', ''Regards'',
                                                ''Sincerely'']
                      \<and> \<not> (lastLine \<noteq> [] \<and> last lastLine = CHR '','')
                   then join [CHR 0x0A] (butlast lines @ [lastLine @ '',''])
                   else body0);
          signature = (if firstName \<noteq> []
                       then [CHR 0x0A, CHR 0x0A] @ senderName @ [CHR 0x0A]
                            @ ''https://ouro.foundation''
                       else [CHR 0x0A, CHR 0x0A] @ ''Building Ouro'' @ [CHR 0x0A]
                            @ ''https://ouro.foundation'')
      in body1 @ signature)"

text \<open>The id under which an award is processed: \<open>award.awardNumber || award._id\<close>.\<close>

definition awardId_of :: "string award \<Rightarrow> string" where
  "awardId_of award = (if awardNumber award \<noteq> [] then awardNumber award else file_id award)"

fun find_tool_use :: "block list \<Rightarrow> block option" where
  "find_tool_use [] = None"
| "find_tool_use (ToolUse nm s b # bs) =
     (if nm = ''create_email'' then Some (ToolUse nm s b) else find_tool_use bs)"
| "find_tool_use (OtherBlock # bs) = find_tool_use bs"

definition generateEmail ::
  "env \<Rightarrow> rat \<times> rat \<times> rat \<Rightarrow> string option \<Rightarrow> string award \<Rightarrow> world
     \<Rightarrow> (error + email) \<times> world" where
  "generateEmail e rnd senderNameOpt award w =
     (if \<not> hasValidContact award then (Inl NoValidPIEmail, w)
      else
        let awardId = awardId_of award
        in if isAlreadyProcessed w awardId then (Inl (AlreadyProcessed awardId), w)
           else
             (case selectVariants e rnd of
                Inl err \<Rightarrow> (Inl err, w)
              | Inr (Selection t d c) \<Rightarrow>
                  (case buildStyleGuide (Selection t d c) of
                     Inl err \<Rightarrow> (Inl err, w)
                   | Inr styleGuide \<Rightarrow>
                       (let prompt = buildPrompt award styleGuide;
                            pi = extractPIInfo award;
                            w1 = w\<lparr>trace := trace w @ [ModelCall prompt]\<rparr>
                        in case anthropic e (trace w) prompt of
                             LlmThrows msg \<Rightarrow> (Inl (ModelFailure msg), w1)
                           | LlmContent blocks \<Rightarrow>
                               (case find_tool_use blocks of
                                  Some (ToolUse nm subj bod) \<Rightarrow>
                                    if \<not> truthy subj \<or> \<not> truthy bod
                                    then (Inl MissingSubjectOrBody, w1)
                                    else
                                      (Inr \<lparr>award_id = awardId,
                                            pi_name = info_piName pi,
                                            pi_email = info_piEmail pi,
                                            institution = info_institution pi,
                                            award_title = title award,
                                            award_amount =
                                              num_or_null (awd_amount award)
                                                (tot_intn_awd_amt award),
                                            subject = the subj,
                                            body = sign_body
                                                     (or_str (js_or senderNameOpt (FROM_NAME e)) [])
                                                     (the bod),
                                            variants =
                                              \<lparr>template_id = item_id (the t),
                                               template_name = item_name (the t),
                                               ouro_description_id = item_id (the d),
                                               call_to_action_id = item_id (the c)\<rparr>,
                                            generated_at = clock e (trace w1),
                                            sent_at = None,
                                            resend_id = None,
                                            extra = []\<rparr>, w1)
                                | _ \<Rightarrow> (Inl NoToolUse, w1))))))"

definition saveDraft :: "email \<Rightarrow> world \<Rightarrow> world" where
  "saveDraft email w = w\<lparr>drafts := writeJson (award_id email) email (drafts w)\<rparr>"

section \<open>Review moves (review.js)\<close>

text \<open>The two moves of the review session, on the draft with the given id.\<close>

definition approve :: "string \<Rightarrow> world \<Rightarrow> error + world" where
  "approve fid w = moveFile fid Drafts Approved w"

definition skip :: "string \<Rightarrow> world \<Rightarrow> error + world" where
  "skip fid w = moveFile fid Drafts Skipped w"

section \<open>Notions used to state the properties\<close>

text \<open>The parsed objects of a folder with their ids, in listing order.\<close>

definition parsed_entries :: "'a folder \<Rightarrow> (string \<times> 'a) list" where
  "parsed_entries dir =
     concat (map (\<lambda>entry. case snd entry of Unreadable \<Rightarrow> [] | Parsed x \<Rightarrow> [(fst entry, x)]) dir)"

definition parsed_contents :: "'a folder \<Rightarrow> 'a list" where
  "parsed_contents dir = map snd (parsed_entries dir)"

definition readable_files :: "'a folder \<Rightarrow> 'a folder" where
  "readable_files dir = filter (\<lambda>entry. snd entry \<noteq> Unreadable) dir"

text \<open>
  The documented email file format: each email is a JSON file named by its award id.
\<close>

definition keyed :: "email folder \<Rightarrow> bool" where
  "keyed dir = list_all (\<lambda>entry. case snd entry of Unreadable \<Rightarrow> True
                                     | Parsed x \<Rightarrow> award_id x = fst entry) dir"

text \<open>
  A folder in the documented format, with no file name listed twice; and a store whose four
  collections are all of that kind.
\<close>

definition well_named :: "email folder \<Rightarrow> bool" where
  "well_named dir = (keyed dir \<and> distinct (listIds dir))"

definition documented_format :: "world \<Rightarrow> bool" where
  "documented_format w =
     (well_named (drafts w) \<and> well_named (approved w) \<and> well_named (sent w)
        \<and> well_named (skipped w))"

text \<open>The status collections in which an id has a file.\<close>

definition collections_of :: "world \<Rightarrow> string \<Rightarrow> status list" where
  "collections_of w i = filter (\<lambda>st. existsSync (DIRS st w) i) [Drafts, Approved, Sent, Skipped]"

definition at_most_one :: "string \<Rightarrow> world \<Rightarrow> bool" where
  "at_most_one i w = (length (collections_of w i) \<le> 1)"

text \<open>A value that \<open>Math.random()\<close> can return.\<close>

definition in_unit_interval :: "rat \<Rightarrow> bool" where
  "in_unit_interval r = (0 \<le> r \<and> r < 1)"

text \<open>
  The batch of \<open>sendApprovedEmails\<close>, the loop state after its first \<open>k\<close> iterations,
  and what dispatching item \<open>k\<close> returns when the loop reaches it.
\<close>

definition toSend_of :: "options \<Rightarrow> world \<Rightarrow> email list" where
  "toSend_of opts w = slice0 (getApprovedEmails w) (limit_of opts)"

definition after_items :: "env \<Rightarrow> options \<Rightarrow> world \<Rightarrow> nat \<Rightarrow> results \<times> world" where
  "after_items e opts w k =
     sendLoop e (delay_of opts) (dryRun_of opts) (fromEmail opts) (fromName opts)
       (length (toSend_of opts w)) 0 (take k (toSend_of opts w))
       (Results [] [] (dryRun_of opts), w)"

definition dispatch_outcome ::
  "env \<Rightarrow> options \<Rightarrow> world \<Rightarrow> nat \<Rightarrow> (error + send_result) \<times> world" where
  "dispatch_outcome e opts w k =
     sendEmail e (toSend_of opts w ! k) (dryRun_of opts) (fromEmail opts) (fromName opts)
       (snd (after_items e opts w k))"

fun sent_awardId :: "sent_entry \<Rightarrow> string" where
  "sent_awardId (SentEntry a r s i) = a"

fun error_awardId :: "error_entry \<Rightarrow> string" where
  "error_awardId (ErrorEntry a r m) = a"

text \<open>What a loop state holds for one award id: its files and its result entries.\<close>

definition view ::
  "string \<Rightarrow> results \<times> world
     \<Rightarrow> email json_file option \<times> email json_file option \<times> sent_entry list \<times> error_entry list" where
  "view k rw =
     (map_of (approved (snd rw)) k, map_of (sent (snd rw)) k,
      filter (\<lambda>s. sent_awardId s = k) (results_sent (fst rw)),
      filter (\<lambda>s. error_awardId s = k) (results_errors (fst rw)))"

section \<open>Scenarios\<close>

definition sample_email :: "string \<Rightarrow> string option \<Rightarrow> email" where
  "sample_email aid addr =
     \<lparr>award_id = aid, pi_name = ''Jane Smith'', pi_email = addr,
      institution = ''University'', award_title = ''Thermoelectrics'', award_amount = None,
      subject = ''Hello'', body = ''Hi'',
      variants = \<lparr>template_id = None, template_name = None, ouro_description_id = None,
                  call_to_action_id = None\<rparr>,
      generated_at = ''2025-01-15'', sent_at = None, resend_id = None, extra = []\<rparr>"

text \<open>
  Scenario C: three approved records, a limit of two, no delay, and a provider whose
  second call fails.
\<close>

definition scenario_C_env :: env where
  "scenario_C_env =
     \<lparr>RESEND_API_KEY = Some ''key'', FROM_NAME = None,
      resend = (\<lambda>h req. if length h = 1 then Thrown ''rejected'' else Data (Some ''re_1'')),
      anthropic = (\<lambda>h p. LlmContent []),
      clock = (\<lambda>h. ''2025-01-16''),
      awards_dir = (\<lambda>y. []),
      variants_json = None\<rparr>"

definition scenario_C_world :: world where
  "scenario_C_world =
     \<lparr>drafts = [],
      approved = [(''a1'', Parsed (sample_email ''a1'' (Some ''a1@b.edu''))),
                  (''a2'', Parsed (sample_email ''a2'' (Some ''a2@b.edu''))),
                  (''a3'', Parsed (sample_email ''a3'' (Some ''a3@b.edu'')))],
      sent = [], skipped = [], trace = []\<rparr>"

definition scenario_C_opts :: options where
  "scenario_C_opts =
     \<lparr>limit = Some 2, delay = Some 0, dryRun = Some False,
      fromEmail = Some ''me@ouro.foundation'', fromName = None\<rparr>"

text \<open>A provider that accepts every request, and a delay of two seconds.\<close>

definition pause_env :: env where
  "pause_env = scenario_C_env\<lparr>resend := (\<lambda>h req. Data (Some ''re_1''))\<rparr>"

definition pause_opts :: options where
  "pause_opts = scenario_C_opts\<lparr>limit := Some 10, delay := Some 2\<rparr>"

text \<open>
  The same options with a delay beyond what the timer holds, and a provider that rejects
  the request addressed to the second recipient whatever the history.
\<close>

definition long_pause_opts :: options where
  "long_pause_opts = pause_opts\<lparr>delay := Some 2147484\<rparr>"

definition reject_env :: env where
  "reject_env =
     scenario_C_env\<lparr>resend :=
       (\<lambda>h req. case req of SendRequest sender recipient subj txt \<Rightarrow>
                   if recipient = ''a2@b.edu'' then Thrown ''rejected'' else Data (Some ''re_1''))\<rparr>"

text \<open>An approved folder whose first file cannot be parsed.\<close>

definition unreadable_world :: world where
  "unreadable_world =
     \<lparr>drafts = [],
      approved = [(''a1'', Unreadable), (''a2'', Parsed (sample_email ''a2'' (Some ''a2@b.edu'')))],
      sent = [], skipped = [], trace = []\<rparr>"

text \<open>Scenario A: one award that matches no keyword, beside a file that cannot be parsed.\<close>

definition scenario_A_raw :: "(string option) award" where
  "scenario_A_raw =
     \<lparr>awd_titl_txt = None, awd_abstract_narration = None, awd_id = None,
      title = Some ''X'', abstractText = Some ''Y'', awardNumber = None,
      pi_arr = None, inst = None, piFirstName = None, piLastName = None,
      piEmail = Some ''a@b.edu'', awardeeName = None, awd_amount = None,
      tot_intn_awd_amt = None, file_id = None, file_year = None\<rparr>"

definition scenario_A_env :: env where
  "scenario_A_env =
     scenario_C_env\<lparr>awards_dir :=
       (\<lambda>y. if y = ''2023'' then [(''2301234'', Parsed scenario_A_raw), (''2301235'', Unreadable)]
            else [])\<rparr>"

text \<open>
  An award in the NSF format that also carries the aliases, with other contents: the
  keyword \<open>theory\<close> occurs in its NSF abstract only, in upper case, and \<open>DFT\<close> in its
  aliases only. Its abstract ends with a word whose first letter is 0xE9.
\<close>

definition keyword_raw :: "(string option) award" where
  "keyword_raw =
     \<lparr>awd_titl_txt = Some ''Oxide films'',
      awd_abstract_narration = Some (''Electronic THEORY of oxides at the '' @ CHR 0xE9 # ''cole''),
      awd_id = Some ''2309999'',
      title = Some ''DFT study'', abstractText = Some ''DFT of films'',
      awardNumber = Some ''77'',
      pi_arr = None, inst = None, piFirstName = None, piLastName = None,
      piEmail = Some ''c@d.edu'', awardeeName = None, awd_amount = Some 5,
      tot_intn_awd_amt = None, file_id = None, file_year = None\<rparr>"

definition keyword_award :: "string award" where
  "keyword_award =
     \<lparr>awd_titl_txt = Some ''Oxide films'',
      awd_abstract_narration = Some (''Electronic THEORY of oxides at the '' @ CHR 0xE9 # ''cole''),
      awd_id = Some ''2309999'',
      title = ''Oxide films'',
      abstractText = ''Electronic THEORY of oxides at the '' @ CHR 0xE9 # ''cole'',
      awardNumber = ''2309999'',
      pi_arr = None, inst = None, piFirstName = None, piLastName = None,
      piEmail = Some ''c@d.edu'', awardeeName = None, awd_amount = Some 5,
      tot_intn_awd_amt = None, file_id = ''f1'', file_year = ''2023''\<rparr>"

definition keyword_env :: env where
  "keyword_env =
     scenario_C_env\<lparr>awards_dir :=
       (\<lambda>y. if y = ''2023''
            then [(''f1'', Parsed keyword_raw), (''f2'', Unreadable),
                  (''2301234'', Parsed scenario_A_raw)]
            else [])\<rparr>"

text \<open>The award of Scenario A as \<open>loadAwards\<close> returns it.\<close>

definition scenario_A_loaded :: "string award" where
  "scenario_A_loaded =
     \<lparr>awd_titl_txt = None, awd_abstract_narration = None, awd_id = None,
      title = ''X'', abstractText = ''Y'', awardNumber = ''2301234'',
      pi_arr = None, inst = None, piFirstName = None, piLastName = None,
      piEmail = Some ''a@b.edu'', awardeeName = None, awd_amount = None,
      tot_intn_awd_amt = None, file_id = ''2301234'', file_year = ''2023''\<rparr>"

definition scenario_award :: "string award" where
  "scenario_award = normalize ''2301234'' ''2023'' scenario_A_raw"

text \<open>
  Scenario B: two enabled templates, one disabled description, one enabled call to
  action; and the same configuration with the description enabled.
\<close>

definition scenario_B_variants :: variants_file where
  "scenario_B_variants =
     \<lparr>templates =
        [\<lparr>item_id = Some ''t1'', item_name = Some ''Direct'', angle = Some ''peer'',
          tone = Some ''casual'', subject_line_style = Some ''question'',
          sign_off_style = Some ''Best'', content = None, enabled = None\<rparr>,
         \<lparr>item_id = Some ''t2'', item_name = Some ''Curious'', angle = Some ''builder'',
          tone = Some ''warm'', subject_line_style = Some ''short'',
          sign_off_style = Some ''Cheers'', content = None, enabled = Some True\<rparr>],
      ouro_descriptions =
        [\<lparr>item_id = Some ''d1'', item_name = None, angle = None, tone = None,
          subject_line_style = None, sign_off_style = None,
          content = Some ''Ouro hosts research code'', enabled = Some False\<rparr>],
      call_to_actions =
        [\<lparr>item_id = Some ''c1'', item_name = None, angle = None, tone = None,
          subject_line_style = None, sign_off_style = None,
          content = Some ''Want a look?'', enabled = Some True\<rparr>]\<rparr>"

definition scenario_B_env :: env where
  "scenario_B_env = scenario_C_env\<lparr>variants_json := Some scenario_B_variants\<rparr>"

definition gen_variants :: variants_file where
  "gen_variants =
     scenario_B_variants\<lparr>ouro_descriptions :=
       map (\<lambda>d. d\<lparr>enabled := Some True\<rparr>) (ouro_descriptions scenario_B_variants)\<rparr>"

definition gen_env :: env where
  "gen_env =
     scenario_C_env\<lparr>variants_json := Some gen_variants,
       anthropic := (\<lambda>h p. LlmContent [OtherBlock,
          ToolUse ''create_email'' (Some ''Quick question'')
            (Some ('' Hi there'' @ [CHR 0x0A] @ ''Best ''))])\<rparr>"

section \<open>Files and folders\<close>

lemma map_of_writeFileSync:
  "map_of (writeFileSync k c dir) k' = (if k' = k then Some c else map_of dir k')"
  by (induction k c dir rule: writeFileSync.induct) auto

lemma keys_writeFileSync: "set (listIds (writeFileSync k c dir)) = insert k (set (listIds dir))"
  by (induction k c dir rule: writeFileSync.induct) (auto simp: listIds_def)

lemma keys_unlinkSync: "set (listIds (unlinkSync k dir)) = set (listIds dir) - {k}"
  by (auto simp: listIds_def unlinkSync_def)

lemma map_of_unlinkSync:
  "map_of (unlinkSync k dir) k' = (if k' = k then None else map_of dir k')"
  by (induction dir) (auto simp: unlinkSync_def)

lemma unlinkSync_absent: "\<not> existsSync dir k \<Longrightarrow> unlinkSync k dir = dir"
  by (induction dir) (auto simp: unlinkSync_def existsSync_def)

lemma existsSync_writeFileSync:
  "existsSync (writeFileSync k c dir) k' \<longleftrightarrow> k' = k \<or> existsSync dir k'"
  using keys_writeFileSync [of k c dir] by (auto simp: existsSync_def listIds_def)

lemma existsSync_unlinkSync:
  "existsSync (unlinkSync k dir) k' \<longleftrightarrow> k' \<noteq> k \<and> existsSync dir k'"
  using keys_unlinkSync [of k dir] by (auto simp: existsSync_def listIds_def)

lemma not_existsSync: "map_of dir k = None \<Longrightarrow> \<not> existsSync dir k"
  by (simp add: existsSync_def map_of_eq_None_iff)

lemma DIRS_set_dir: "DIRS st (set_dir st' d w) = (if st = st' then d else DIRS st w)"
  by (cases st; cases st'; simp)

lemma parsed_contents_mem:
  "x \<in> set (parsed_contents dir) \<longleftrightarrow> (\<exists>k. (k, Parsed x) \<in> set dir)"
  by (induction dir) (auto simp: parsed_contents_def parsed_entries_def split: json_file.splits)

lemma parsed_readable: "parsed_entries (readable_files dir) = parsed_entries dir"
  by (induction dir) (auto simp: parsed_entries_def readable_files_def)

lemma distinct_readable: "distinct (listIds dir) \<Longrightarrow> distinct (listIds (readable_files dir))"
  by (simp add: listIds_def readable_files_def distinct_map_filter)

text \<open>Reading every listed file of a directory yields its parsed objects, in order.\<close>

lemma read_all_parsed:
  assumes d: "distinct (listIds dir)"
  shows "List.map_filter (\<lambda>x. x) (map (\<lambda>fid. readJson dir fid) (listIds dir)) = parsed_contents dir"
proof -
  have "readJson dir (fst entry) = (case snd entry of Unreadable \<Rightarrow> None | Parsed x \<Rightarrow> Some x)"
    if "entry \<in> set dir" for entry
  proof -
    from that d have "map_of dir (fst entry) = Some (snd entry)" by (simp add: listIds_def)
    then show ?thesis by (simp add: readJson_def split: json_file.splits)
  qed
  then have "map (\<lambda>fid. readJson dir fid) (map fst dir) =
      map (\<lambda>entry. case snd entry of Unreadable \<Rightarrow> None | Parsed x \<Rightarrow> Some x) dir"
    by (simp add: comp_def cong: map_cong)
  moreover have "List.map_filter (\<lambda>x. x)
          (map (\<lambda>entry. case snd entry of Unreadable \<Rightarrow> None | Parsed x \<Rightarrow> Some x) dir')
        = parsed_contents dir'" for dir' :: "'a folder"
    by (induction dir')
       (auto simp: parsed_contents_def parsed_entries_def List.map_filter_simps
          split: json_file.splits)
  ultimately show ?thesis by (simp only: listIds_def)
qed

lemma keyed_parsed_ids:
  assumes "keyed dir"
  shows "map award_id (parsed_contents dir) = map fst (readable_files dir)"
  using assms
  by (induction dir)
     (auto simp: keyed_def parsed_contents_def parsed_entries_def readable_files_def
        split: json_file.splits)

lemma keyed_lookup:
  assumes "keyed dir" "distinct (listIds dir)" "x \<in> set (parsed_contents dir)"
  shows "map_of dir (award_id x) = Some (Parsed x)"
proof -
  from assms(3) obtain k where k: "(k, Parsed x) \<in> set dir"
    by (auto simp: parsed_contents_mem)
  with assms(1) have "award_id x = k"
    by (auto simp: keyed_def list_all_iff)
  with k assms(2) show ?thesis
    by (simp add: listIds_def)
qed

lemma keyed_distinct_ids:
  assumes "keyed dir" "distinct (listIds dir)"
  shows "distinct (map award_id (parsed_contents dir))"
proof -
  have "distinct (map fst (readable_files dir))"
    using assms(2) by (simp add: readable_files_def listIds_def distinct_map_filter)
  with assms(1) show ?thesis by (simp add: keyed_parsed_ids)
qed

lemma slice0_take: "\<exists>m. slice0 xs l = take m xs"
  by (auto simp: slice0_def)

lemma distinct_nth_split:
  assumes "distinct (map f xs)" and "k < length xs"
  shows "f (xs ! k) \<notin> f ` set (take k xs)" and "f (xs ! k) \<notin> f ` set (drop (Suc k) xs)"
proof -
  have "xs = take k xs @ xs ! k # drop (Suc k) xs"
    using assms(2) by (simp add: id_take_nth_drop)
  then have "distinct (map f (take k xs @ xs ! k # drop (Suc k) xs))"
    using assms(1) by simp
  then show "f (xs ! k) \<notin> f ` set (take k xs)" and "f (xs ! k) \<notin> f ` set (drop (Suc k) xs)"
    by auto
qed

section \<open>The loop of the batch sender\<close>

lemma option_defaults:
  "dryRun opts = Some b \<Longrightarrow> dryRun_of opts = b"
  "limit opts = Some l \<Longrightarrow> limit_of opts = l"
  "delay opts = Some d \<Longrightarrow> delay_of opts = d"
  by (simp_all add: dryRun_of_def limit_of_def delay_of_def)

lemma results_push [simp]:
  "results_sent (push_sent x r) = results_sent r @ [x]"
  "results_errors (push_sent x r) = results_errors r"
  "results_sent (push_error y r) = results_sent r"
  "results_errors (push_error y r) = results_errors r @ [y]"
  by (cases r; simp)+

lemma markAsSent_fields:
  "trace (snd (markAsSent e x rid w)) = trace w"
  "drafts (snd (markAsSent e x rid w)) = drafts w"
  "skipped (snd (markAsSent e x rid w)) = skipped w"
  "sent (snd (markAsSent e x rid w)) =
     writeFileSync (award_id x)
       (Parsed (x\<lparr>sent_at := Some (clock e (trace w)), resend_id := rid\<rparr>)) (sent w)"
  "approved (snd (markAsSent e x rid w)) = unlinkSync (award_id x) (approved w)"
  by (simp_all add: markAsSent_def Let_def writeJson_def unlinkSync_absent)

lemma sendEmail_store:
  "drafts (snd (sendEmail e x dry fE fN w)) = drafts w"
  "approved (snd (sendEmail e x dry fE fN w)) = approved w"
  "sent (snd (sendEmail e x dry fE fN w)) = sent w"
  "skipped (snd (sendEmail e x dry fE fN w)) = skipped w"
  by (auto simp: sendEmail_def Let_def split: resend_result.splits)

lemma sendLoop_append:
  "sendLoop e dly dry fE fN n i (xs @ ys) rw =
     sendLoop e dly dry fE fN n (i + length xs) ys (sendLoop e dly dry fE fN n i xs rw)"
  by (induction xs arbitrary: i rw) simp_all

lemma after_items_Suc:
  assumes "k < length (toSend_of opts w)"
  shows "after_items e opts w (Suc k) =
           sendIteration e (delay_of opts) (dryRun_of opts) (fromEmail opts) (fromName opts)
             (length (toSend_of opts w)) k (toSend_of opts w ! k) (after_items e opts w k)"
  using assms
  by (simp add: after_items_def take_Suc_conv_app_nth sendLoop_append)

lemma after_items_rest:
  assumes "k \<le> length (toSend_of opts w)"
  shows "after_items e opts w (length (toSend_of opts w)) =
           sendLoop e (delay_of opts) (dryRun_of opts) (fromEmail opts) (fromName opts)
             (length (toSend_of opts w)) k (drop k (toSend_of opts w)) (after_items e opts w k)"
proof -
  have "take (length (toSend_of opts w)) (toSend_of opts w)
          = take k (toSend_of opts w) @ drop k (toSend_of opts w)"
    by simp
  then show ?thesis
    using assms unfolding after_items_def
    by (simp only: sendLoop_append) (simp add: min_def)
qed

lemma sendApprovedEmails_after_items:
  assumes "dryRun_of opts \<or> (truthy (RESEND_API_KEY e) \<and> truthy (fromEmail opts))"
  shows "sendApprovedEmails e opts w =
           (Inr (fst (after_items e opts w (length (toSend_of opts w)))),
            snd (after_items e opts w (length (toSend_of opts w))))"
  using assms
  by (auto simp: sendApprovedEmails_def after_items_def toSend_of_def Let_def split_def)

lemma sendIteration_dry: "snd (sendIteration e dly True fE fN n i email rw) = snd rw"
  by (simp add: sendIteration_def sendEmail_def Let_def)

lemma sendLoop_dry: "snd (sendLoop e dly True fE fN n i es rw) = snd rw"
  by (induction es arbitrary: i rw) (simp_all add: sendIteration_dry)

lemma sendIteration_error:
  assumes "fst (sendEmail e y dry fE fN (snd rw)) = Inl err"
  shows "fst (sendIteration e dly dry fE fN n i y rw) =
           push_error (ErrorEntry (award_id y) (pi_email y) err) (fst rw)"
    and "approved (snd (sendIteration e dly dry fE fN n i y rw)) = approved (snd rw)"
    and "sent (snd (sendIteration e dly dry fE fN n i y rw)) = sent (snd rw)"
  using assms sendEmail_store [of e y dry fE fN "snd rw"]
  by (auto simp: sendIteration_def split: prod.splits sum.splits)

lemma sendIteration_success:
  assumes "fst (sendEmail e y False fE fN (snd rw)) = Inr res"
  shows "fst (sendIteration e dly False fE fN n i y rw) =
           push_sent (SentEntry (award_id y) (pi_email y) (subject y) (resendId res)) (fst rw)"
    and "approved (snd (sendIteration e dly False fE fN n i y rw)) =
           unlinkSync (award_id y) (approved (snd rw))"
    and "sent (snd (sendIteration e dly False fE fN n i y rw)) =
           writeFileSync (award_id y)
             (Parsed (y\<lparr>sent_at := Some (clock e (trace (snd (sendEmail e y False fE fN (snd rw))))),
                        resend_id := resendId res\<rparr>)) (sent (snd rw))"
  using assms sendEmail_store [of e y False fE fN "snd rw"]
  by (auto simp: sendIteration_def Let_def sleep_def markAsSent_fields split: prod.splits sum.splits)

lemma sendIteration_frame:
  "drafts (snd (sendIteration e dly dry fE fN n i y rw)) = drafts (snd rw)"
  "skipped (snd (sendIteration e dly dry fE fN n i y rw)) = skipped (snd rw)"
  by (simp_all add: sendIteration_def sendEmail_def Let_def sleep_def markAsSent_fields
      split: resend_result.splits)

lemma sendLoop_drafts:
  "drafts (snd (sendLoop e dly dry fE fN n i ys rw)) = drafts (snd rw)"
  by (induction ys arbitrary: i rw) (simp_all add: sendIteration_frame)

lemma sendLoop_skipped:
  "skipped (snd (sendLoop e dly dry fE fN n i ys rw)) = skipped (snd rw)"
  by (induction ys arbitrary: i rw) (simp_all add: sendIteration_frame)

text \<open>An iteration touches the files and the entries of its own award id only.\<close>

lemma sendIteration_view:
  assumes "k \<noteq> award_id y"
  shows "view k (sendIteration e dly False fE fN n i y rw) = view k rw"
proof (cases "fst (sendEmail e y False fE fN (snd rw))")
  case (Inl err)
  from sendIteration_error [OF Inl] assms show ?thesis
    by (simp add: view_def)
next
  case (Inr res)
  from sendIteration_success [OF Inr] assms show ?thesis
    by (simp add: view_def map_of_unlinkSync map_of_writeFileSync)
qed

lemma sendLoop_view:
  assumes "k \<notin> award_id ` set ys"
  shows "view k (sendLoop e dly False fE fN n i ys rw) = view k rw"
  using assms
proof (induction ys arbitrary: i rw)
  case Nil
  show ?case by simp
next
  case (Cons y ys)
  then have "view k (sendLoop e dly False fE fN n (Suc i) ys
                       (sendIteration e dly False fE fN n i y rw))
               = view k (sendIteration e dly False fE fN n i y rw)"
    by simp
  also have "\<dots> = view k rw"
    using Cons.prems by (simp add: sendIteration_view)
  finally show ?case by simp
qed

text \<open>Every iteration adds one entry, to one of the two lists.\<close>

lemma sendIteration_count:
  "length (results_sent (fst (sendIteration e dly False fE fN n i y rw)))
     + length (results_errors (fst (sendIteration e dly False fE fN n i y rw)))
   = Suc (length (results_sent (fst rw)) + length (results_errors (fst rw)))"
proof (cases "fst (sendEmail e y False fE fN (snd rw))")
  case (Inl err)
  from sendIteration_error(1) [OF Inl] show ?thesis by simp
next
  case (Inr res)
  from sendIteration_success(1) [OF Inr] show ?thesis by simp
qed

lemma sendLoop_count:
  "length (results_sent (fst (sendLoop e dly False fE fN n i ys rw)))
     + length (results_errors (fst (sendLoop e dly False fE fN n i ys rw)))
   = length ys + (length (results_sent (fst rw)) + length (results_errors (fst rw)))"
  by (induction ys arbitrary: i rw) (simp_all add: sendIteration_count)

text \<open>Results and effects depend on the records and on the history, not on the store.\<close>

lemma sendIteration_indep:
  assumes "trace w = trace w'"
  shows "fst (sendIteration e dly dry fE fN n i y (r, w))
           = fst (sendIteration e dly dry fE fN n i y (r, w'))"
    and "trace (snd (sendIteration e dly dry fE fN n i y (r, w)))
           = trace (snd (sendIteration e dly dry fE fN n i y (r, w')))"
  using assms
  by (auto simp: sendIteration_def sendEmail_def Let_def sleep_def markAsSent_fields
      split: resend_result.splits)

lemma sendLoop_indep:
  assumes "trace (snd rw) = trace (snd rw')" and "fst rw = fst rw'"
  shows "fst (sendLoop e dly dry fE fN n i ys rw) = fst (sendLoop e dly dry fE fN n i ys rw')
       \<and> trace (snd (sendLoop e dly dry fE fN n i ys rw))
           = trace (snd (sendLoop e dly dry fE fN n i ys rw'))"
  using assms
proof (induction ys arbitrary: i rw rw')
  case Nil
  then show ?case by simp
next
  case (Cons y ys)
  obtain r w where rw: "rw = (r, w)" by (cases rw)
  obtain r' w' where rw': "rw' = (r', w')" by (cases rw')
  from Cons.prems have eq: "trace w = trace w'" "r = r'" by (simp_all add: rw rw')
  show ?case
    using Cons.IH [of "sendIteration e dly dry fE fN n i y rw"
                      "sendIteration e dly dry fE fN n i y rw'" "Suc i"]
      sendIteration_indep [OF eq(1), of e dly dry fE fN n i y r]
    by (simp add: rw rw' eq(2))
qed

lemma getApprovedEmails_parsed:
  assumes "distinct (listIds (approved w))"
  shows "getApprovedEmails w = parsed_contents (approved w)"
  using read_all_parsed [OF assms] by (simp add: getApprovedEmails_def)

lemma toSend_of_props:
  assumes "distinct (listIds (approved w))" and "keyed (approved w)"
  shows "distinct (map award_id (toSend_of opts w))"
    and "x \<in> set (toSend_of opts w) \<Longrightarrow> map_of (approved w) (award_id x) = Some (Parsed x)"
proof -
  obtain m where m: "toSend_of opts w = take m (parsed_contents (approved w))"
    using slice0_take [of "getApprovedEmails w"] getApprovedEmails_parsed [OF assms(1)]
    by (auto simp: toSend_of_def)
  show "distinct (map award_id (toSend_of opts w))"
    using keyed_distinct_ids [OF assms(2,1)] by (simp add: m take_map [symmetric])
  show "map_of (approved w) (award_id x) = Some (Parsed x)" if "x \<in> set (toSend_of opts w)"
    using that keyed_lookup [OF assms(2,1), of x] by (auto simp: m dest: in_set_takeD)
qed

text \<open>The run of Scenario C.\<close>

lemmas send_defs = sendApprovedEmails_def getApprovedEmails_def listIds_def readJson_def
  slice0_def sendIteration_def sendEmail_def markAsSent_def writeJson_def existsSync_def
  unlinkSync_def sleep_def setTimeout_def truthy_def interpolate_def Let_def List.map_filter_simps
  limit_of_def delay_of_def dryRun_of_def

lemmas scenario_defs = scenario_C_env_def scenario_C_world_def scenario_C_opts_def
  sample_email_def pause_env_def pause_opts_def unreadable_world_def long_pause_opts_def
  reject_env_def

lemma scenario_C_run:
  "sendApprovedEmails scenario_C_env scenario_C_opts scenario_C_world =
     (Inr (Results [SentEntry ''a1'' (Some ''a1@b.edu'') ''Hello'' (Some ''re_1'')]
                   [ErrorEntry ''a2'' (Some ''a2@b.edu'') (ProviderFailure ''rejected'')] False),
      \<lparr>drafts = [],
       approved = [(''a2'', Parsed (sample_email ''a2'' (Some ''a2@b.edu''))),
                   (''a3'', Parsed (sample_email ''a3'' (Some ''a3@b.edu'')))],
       sent = [(''a1'', Parsed ((sample_email ''a1'' (Some ''a1@b.edu''))
                                  \<lparr>sent_at := Some ''2025-01-16'', resend_id := Some ''re_1''\<rparr>))],
       skipped = [],
       trace = [Dispatch (SendRequest (Some ''me@ouro.foundation'') ''a1@b.edu'' ''Hello'' ''Hi''),
                Dispatch (SendRequest (Some ''me@ouro.foundation'') ''a2@b.edu'' ''Hello'' ''Hi'')]\<rparr>)"
  by (simp add: scenario_C_env_def scenario_C_world_def scenario_C_opts_def sample_email_def
      send_defs)




section \<open>Properties of the batch sender\<close>

text \<open>
  C3. A dry run leaves the world as it was: the four status collections are unchanged
  (nothing is written, moved or deleted) and the history gains no event, so that no
  delivery call is made; this holds for every world, every limit and every other option,
  and the call returns its results rather than an error.
\<close>

theorem dry_run_leaves_store:
  assumes "dryRun_of opts"
  shows "snd (sendApprovedEmails e opts w) = w \<and> isl (fst (sendApprovedEmails e opts w)) = False"
  using assms by (simp add: sendApprovedEmails_def Let_def split_def sendLoop_dry)

theorem dry_run_leaves_store_witness:
  "dryRun_of (scenario_C_opts\<lparr>dryRun := Some True\<rparr>)
   \<and> snd (sendApprovedEmails scenario_C_env (scenario_C_opts\<lparr>dryRun := Some True\<rparr>)
            scenario_C_world)
       = scenario_C_world"
  using dry_run_leaves_store [of "scenario_C_opts\<lparr>dryRun := Some True\<rparr>" scenario_C_env
      scenario_C_world]
  by (simp add: dryRun_of_def)

text \<open>
  C7. Outside a dry run, a missing provider credential or a missing or empty
  \<open>fromEmail\<close> makes \<open>sendApprovedEmails\<close> throw a configuration error at once: the
  world it leaves is the world it found, no record having been read, dispatched or moved.
\<close>

theorem config_checked_first:
  assumes "\<not> dryRun_of opts"
    and "\<not> truthy (RESEND_API_KEY e) \<or> \<not> truthy (fromEmail opts)"
  shows "sendApprovedEmails e opts w =
           (Inl (if \<not> truthy (RESEND_API_KEY e) then ResendKeyNotSet else FromEmailRequired), w)"
  using assms by (auto simp: sendApprovedEmails_def Let_def)

theorem config_checked_first_witness:
  "\<not> dryRun_of scenario_C_opts
   \<and> \<not> truthy (RESEND_API_KEY (scenario_C_env\<lparr>RESEND_API_KEY := None\<rparr>))
   \<and> sendApprovedEmails (scenario_C_env\<lparr>RESEND_API_KEY := None\<rparr>) scenario_C_opts
         scenario_C_world
       = (Inl ResendKeyNotSet, scenario_C_world)"
  using config_checked_first [of scenario_C_opts "scenario_C_env\<lparr>RESEND_API_KEY := None\<rparr>"
      scenario_C_world]
  by (simp add: dryRun_of_def truthy_def scenario_C_opts_def)

text \<open>
  C9. The record that \<open>markAsSent\<close> writes into the sent collection (and returns) is the
  input record with \<open>sent_at\<close> set to the current timestamp and \<open>resend_id\<close> set to
  the provider's id; every other field, and any further property the object carries, is
  the input's.
\<close>

theorem markAsSent_changes_two_fields:
  "readJson (sent (snd (markAsSent e email rid w))) (award_id email)
     = Some (fst (markAsSent e email rid w))
   \<and> fst (markAsSent e email rid w) = email\<lparr>sent_at := Some (clock e (trace w)), resend_id := rid\<rparr>
   \<and> sent_at (fst (markAsSent e email rid w)) = Some (clock e (trace w))
   \<and> resend_id (fst (markAsSent e email rid w)) = rid
   \<and> award_id (fst (markAsSent e email rid w)) = award_id email
   \<and> pi_name (fst (markAsSent e email rid w)) = pi_name email
   \<and> pi_email (fst (markAsSent e email rid w)) = pi_email email
   \<and> institution (fst (markAsSent e email rid w)) = institution email
   \<and> award_title (fst (markAsSent e email rid w)) = award_title email
   \<and> award_amount (fst (markAsSent e email rid w)) = award_amount email
   \<and> subject (fst (markAsSent e email rid w)) = subject email
   \<and> body (fst (markAsSent e email rid w)) = body email
   \<and> variants (fst (markAsSent e email rid w)) = variants email
   \<and> generated_at (fst (markAsSent e email rid w)) = generated_at email
   \<and> extra (fst (markAsSent e email rid w)) = extra email"
  by (simp add: markAsSent_def Let_def readJson_def writeJson_def map_of_writeFileSync)

theorem markAsSent_changes_two_fields_witness:
  "readJson (sent (snd (markAsSent scenario_C_env (sample_email ''a1'' (Some ''a1@b.edu''))
                          (Some ''re_1'') scenario_C_world))) ''a1''
     = Some ((sample_email ''a1'' (Some ''a1@b.edu''))
               \<lparr>sent_at := Some ''2025-01-16'', resend_id := Some ''re_1''\<rparr>)"
  using markAsSent_changes_two_fields [of scenario_C_env "sample_email ''a1'' (Some ''a1@b.edu'')"
      "Some ''re_1''" scenario_C_world]
  by (simp add: sample_email_def scenario_C_env_def)

text \<open>
  C10. Every record that \<open>getApprovedEmails\<close> returns is the parsed content of a file
  of the approved folder; on a listing without duplicate names it returns exactly the
  parsed objects of the folder, in order, so that a file that cannot be read or parsed
  contributes no record. Such files have no bearing on a batch either:
  \<open>sendApprovedEmails\<close> returns the same sent and errors lists, and makes the same
  dispatches, as on the store without them.
\<close>

theorem unreadable_files_excluded:
  "(\<forall>x \<in> set (getApprovedEmails w). \<exists>fid. map_of (approved w) fid = Some (Parsed x))
   \<and> (distinct (listIds (approved w)) \<longrightarrow>
        getApprovedEmails w = parsed_contents (approved w)
        \<and> fst (sendApprovedEmails e opts w)
            = fst (sendApprovedEmails e opts (w\<lparr>approved := readable_files (approved w)\<rparr>))
        \<and> trace (snd (sendApprovedEmails e opts w))
            = trace (snd (sendApprovedEmails e opts
                            (w\<lparr>approved := readable_files (approved w)\<rparr>))))"
proof -
  let ?w2 = "w\<lparr>approved := readable_files (approved w)\<rparr>"
  have sub: "\<forall>x \<in> set (getApprovedEmails w). \<exists>fid. map_of (approved w) fid = Some (Parsed x)"
    by (auto simp: getApprovedEmails_def List.map_filter_def readJson_def
        split: option.splits json_file.splits)
  have rest: "getApprovedEmails w = parsed_contents (approved w)
        \<and> fst (sendApprovedEmails e opts w) = fst (sendApprovedEmails e opts ?w2)
        \<and> trace (snd (sendApprovedEmails e opts w)) = trace (snd (sendApprovedEmails e opts ?w2))"
    if names: "distinct (listIds (approved w))"
  proof -
    have g: "getApprovedEmails w = parsed_contents (approved w)"
      by (rule getApprovedEmails_parsed [OF names])
    have "getApprovedEmails ?w2 = parsed_contents (approved ?w2)"
      by (rule getApprovedEmails_parsed) (simp add: distinct_readable [OF names])
    then have same: "getApprovedEmails ?w2 = getApprovedEmails w"
      by (simp add: g parsed_contents_def parsed_readable)
    have "fst (sendLoop e dly dry fE fN n 0 ys (r, w))
            = fst (sendLoop e dly dry fE fN n 0 ys (r, ?w2))
        \<and> trace (snd (sendLoop e dly dry fE fN n 0 ys (r, w)))
            = trace (snd (sendLoop e dly dry fE fN n 0 ys (r, ?w2)))" for dly dry fE fN n ys r
      by (rule sendLoop_indep) simp_all
    then show ?thesis
      by (simp add: g [symmetric] sendApprovedEmails_def Let_def split_def same)
  qed
  from sub rest show ?thesis by blast
qed

theorem unreadable_files_excluded_witness:
  "distinct (listIds (approved unreadable_world))
   \<and> getApprovedEmails unreadable_world = [sample_email ''a2'' (Some ''a2@b.edu'')]
   \<and> fst (sendApprovedEmails scenario_C_env scenario_C_opts unreadable_world)
       = Inr (Results [SentEntry ''a2'' (Some ''a2@b.edu'') ''Hello'' (Some ''re_1'')] [] False)"
proof -
  have names: "distinct (listIds (approved unreadable_world))"
    by (simp add: unreadable_world_def listIds_def)
  have run: "fst (sendApprovedEmails scenario_C_env scenario_C_opts
                   (unreadable_world\<lparr>approved := readable_files (approved unreadable_world)\<rparr>))
       = Inr (Results [SentEntry ''a2'' (Some ''a2@b.edu'') ''Hello'' (Some ''re_1'')] [] False)"
    by (simp add: scenario_defs send_defs readable_files_def)
  have parsed: "parsed_contents (approved unreadable_world) = [sample_email ''a2'' (Some ''a2@b.edu'')]"
    by (simp add: unreadable_world_def parsed_contents_def parsed_entries_def)
  from unreadable_files_excluded [of unreadable_world scenario_C_env scenario_C_opts] names run parsed
  show ?thesis by simp
qed


text \<open>
  C2. A batch outside a dry run, on an approved folder in the documented format (each
  email file named by its award id, no two files of one name). For the item at any
  position \<open>k\<close> of the batch: when its dispatch raises an error, the errors list holds
  exactly one entry for it, with that error, the sent list holds none, and its file in
  approved is the one that was there; when its dispatch succeeds, the sent list holds
  exactly one entry for it, the errors list holds none, the sent collection holds the
  record with \<open>sent_at\<close> and \<open>resend_id\<close> set, and approved no longer holds its file.
  Every item yields one entry, whatever happened to the others. In Scenario C the
  result has one sent entry and one error entry, the failed record is still in approved,
  unchanged, and the delivered one is in sent only.
\<close>

theorem send_outcomes:
  assumes dry: "\<not> dryRun_of opts"
    and key: "truthy (RESEND_API_KEY e)"
    and sender: "truthy (fromEmail opts)"
    and names: "distinct (listIds (approved w))"
    and keyed: "keyed (approved w)"
    and k: "k < length (toSend_of opts w)"
  shows "\<exists>r w'. sendApprovedEmails e opts w = (Inr r, w')
           \<and> length (results_sent r) + length (results_errors r) = length (toSend_of opts w)
           \<and> drafts w' = drafts w \<and> skipped w' = skipped w
           \<and> map_of (approved w) (award_id (toSend_of opts w ! k)) = Some (Parsed (toSend_of opts w ! k))
           \<and> (case fst (dispatch_outcome e opts w k) of
                 Inl err \<Rightarrow>
                   filter (\<lambda>s. error_awardId s = award_id (toSend_of opts w ! k)) (results_errors r)
                     = [ErrorEntry (award_id (toSend_of opts w ! k)) (pi_email (toSend_of opts w ! k)) err]
                   \<and> filter (\<lambda>s. sent_awardId s = award_id (toSend_of opts w ! k)) (results_sent r) = []
                   \<and> map_of (approved w') (award_id (toSend_of opts w ! k))
                       = Some (Parsed (toSend_of opts w ! k))
                   \<and> map_of (sent w') (award_id (toSend_of opts w ! k))
                       = map_of (sent w) (award_id (toSend_of opts w ! k))
               | Inr res \<Rightarrow>
                   filter (\<lambda>s. sent_awardId s = award_id (toSend_of opts w ! k)) (results_sent r)
                     = [SentEntry (award_id (toSend_of opts w ! k)) (pi_email (toSend_of opts w ! k))
                          (subject (toSend_of opts w ! k)) (resendId res)]
                   \<and> filter (\<lambda>s. error_awardId s = award_id (toSend_of opts w ! k)) (results_errors r) = []
                   \<and> readJson (sent w') (award_id (toSend_of opts w ! k))
                       = Some ((toSend_of opts w ! k)
                                \<lparr>sent_at := Some (clock e (trace (snd (dispatch_outcome e opts w k)))),
                                 resend_id := resendId res\<rparr>)
                   \<and> \<not> existsSync (approved w') (award_id (toSend_of opts w ! k)))
       \<and> fst (sendApprovedEmails scenario_C_env scenario_C_opts scenario_C_world)
           = Inr (Results [SentEntry ''a1'' (Some ''a1@b.edu'') ''Hello'' (Some ''re_1'')]
                          [ErrorEntry ''a2'' (Some ''a2@b.edu'') (ProviderFailure ''rejected'')] False)
       \<and> collections_of (snd (sendApprovedEmails scenario_C_env scenario_C_opts scenario_C_world)) ''a1''
           = [Sent]
       \<and> collections_of (snd (sendApprovedEmails scenario_C_env scenario_C_opts scenario_C_world)) ''a2''
           = [Approved]
       \<and> map_of (approved (snd (sendApprovedEmails scenario_C_env scenario_C_opts scenario_C_world))) ''a2''
           = map_of (approved scenario_C_world) ''a2''"
proof -
  let ?ts = "toSend_of opts w"
  let ?n = "length ?ts"
  let ?x = "?ts ! k"
  let ?id = "award_id ?x"
  let ?dly = "delay_of opts"
  let ?fE = "fromEmail opts" and ?fN = "fromName opts"
  from dry have dryF: "dryRun_of opts = False" by simp
  define rwk where "rwk = after_items e opts w k"
  define rwk1 where "rwk1 = after_items e opts w (Suc k)"
  define fin where "fin = after_items e opts w ?n"
  have run: "sendApprovedEmails e opts w = (Inr (fst fin), snd fin)"
    using sendApprovedEmails_after_items [of opts e w] key sender by (simp add: fin_def)
  have ids: "?id \<notin> award_id ` set (take k ?ts)" "?id \<notin> award_id ` set (drop (Suc k) ?ts)"
    using distinct_nth_split [OF toSend_of_props(1) [OF names keyed] k] by simp_all
  have look: "map_of (approved w) ?id = Some (Parsed ?x)"
    using toSend_of_props(2) [OF names keyed, of ?x opts] k by simp
  have v0: "view ?id rwk = (Some (Parsed ?x), map_of (sent w) ?id, [], [])"
    unfolding rwk_def after_items_def dryF
    by (simp add: sendLoop_view [OF ids(1)]) (simp add: view_def look)
  have step: "rwk1 = sendIteration e ?dly False ?fE ?fN ?n k ?x rwk"
    using after_items_Suc [OF k, of e] by (simp add: rwk1_def rwk_def dryF)
  have "fin = sendLoop e ?dly False ?fE ?fN ?n (Suc k) (drop (Suc k) ?ts) rwk1"
    using after_items_rest [of "Suc k" opts w e] k by (simp add: fin_def rwk1_def dryF)
  then have vfin: "view ?id fin = view ?id rwk1"
    by (simp add: sendLoop_view [OF ids(2)])
  have cnt: "length (results_sent (fst fin)) + length (results_errors (fst fin)) = ?n"
    unfolding fin_def after_items_def dryF by (simp add: sendLoop_count)
  have frame: "drafts (snd fin) = drafts w" "skipped (snd fin) = skipped w"
    unfolding fin_def after_items_def by (simp_all add: sendLoop_drafts sendLoop_skipped)
  have out: "dispatch_outcome e opts w k = sendEmail e ?x False ?fE ?fN (snd rwk)"
    by (simp add: dispatch_outcome_def dryF rwk_def)
  have outcome: "case fst (dispatch_outcome e opts w k) of
      Inl err \<Rightarrow> view ?id fin = (Some (Parsed ?x), map_of (sent w) ?id, [],
                    [ErrorEntry ?id (pi_email ?x) err])
    | Inr res \<Rightarrow> view ?id fin =
          (None,
           Some (Parsed (?x\<lparr>sent_at := Some (clock e (trace (snd (dispatch_outcome e opts w k)))),
                           resend_id := resendId res\<rparr>)),
           [SentEntry ?id (pi_email ?x) (subject ?x) (resendId res)], [])"
  proof (cases "fst (dispatch_outcome e opts w k)")
    case (Inl err)
    then have "fst (sendEmail e ?x False ?fE ?fN (snd rwk)) = Inl err" by (simp add: out)
    from sendIteration_error [OF this, of ?dly ?n k] v0 have
      "view ?id rwk1 = (Some (Parsed ?x), map_of (sent w) ?id, [], [ErrorEntry ?id (pi_email ?x) err])"
      by (simp add: step view_def)
    with Inl vfin show ?thesis by simp
  next
    case (Inr res)
    then have "fst (sendEmail e ?x False ?fE ?fN (snd rwk)) = Inr res" by (simp add: out)
    from sendIteration_success [OF this, of ?dly ?n k] v0 have
      "view ?id rwk1 =
          (None,
           Some (Parsed (?x\<lparr>sent_at := Some (clock e (trace (snd (dispatch_outcome e opts w k)))),
                           resend_id := resendId res\<rparr>)),
           [SentEntry ?id (pi_email ?x) (subject ?x) (resendId res)], [])"
      by (simp add: step view_def out map_of_unlinkSync map_of_writeFileSync)
    with Inr vfin show ?thesis by simp
  qed
  have general: "\<exists>r w'. sendApprovedEmails e opts w = (Inr r, w')
           \<and> length (results_sent r) + length (results_errors r) = length (toSend_of opts w)
           \<and> drafts w' = drafts w \<and> skipped w' = skipped w
           \<and> map_of (approved w) (award_id (toSend_of opts w ! k)) = Some (Parsed (toSend_of opts w ! k))
           \<and> (case fst (dispatch_outcome e opts w k) of
                 Inl err \<Rightarrow>
                   filter (\<lambda>s. error_awardId s = award_id (toSend_of opts w ! k)) (results_errors r)
                     = [ErrorEntry (award_id (toSend_of opts w ! k)) (pi_email (toSend_of opts w ! k)) err]
                   \<and> filter (\<lambda>s. sent_awardId s = award_id (toSend_of opts w ! k)) (results_sent r) = []
                   \<and> map_of (approved w') (award_id (toSend_of opts w ! k))
                       = Some (Parsed (toSend_of opts w ! k))
                   \<and> map_of (sent w') (award_id (toSend_of opts w ! k))
                       = map_of (sent w) (award_id (toSend_of opts w ! k))
               | Inr res \<Rightarrow>
                   filter (\<lambda>s. sent_awardId s = award_id (toSend_of opts w ! k)) (results_sent r)
                     = [SentEntry (award_id (toSend_of opts w ! k)) (pi_email (toSend_of opts w ! k))
                          (subject (toSend_of opts w ! k)) (resendId res)]
                   \<and> filter (\<lambda>s. error_awardId s = award_id (toSend_of opts w ! k)) (results_errors r) = []
                   \<and> readJson (sent w') (award_id (toSend_of opts w ! k))
                       = Some ((toSend_of opts w ! k)
                                \<lparr>sent_at := Some (clock e (trace (snd (dispatch_outcome e opts w k)))),
                                 resend_id := resendId res\<rparr>)
                   \<and> \<not> existsSync (approved w') (award_id (toSend_of opts w ! k)))"
    apply (rule exI [of _ "fst fin"], rule exI [of _ "snd fin"])
    using run cnt frame look outcome
    by (auto simp: view_def readJson_def not_existsSync split: sum.splits)
  have scenario: "fst (sendApprovedEmails scenario_C_env scenario_C_opts scenario_C_world)
           = Inr (Results [SentEntry ''a1'' (Some ''a1@b.edu'') ''Hello'' (Some ''re_1'')]
                          [ErrorEntry ''a2'' (Some ''a2@b.edu'') (ProviderFailure ''rejected'')] False)
       \<and> collections_of (snd (sendApprovedEmails scenario_C_env scenario_C_opts scenario_C_world)) ''a1''
           = [Sent]
       \<and> collections_of (snd (sendApprovedEmails scenario_C_env scenario_C_opts scenario_C_world)) ''a2''
           = [Approved]
       \<and> map_of (approved (snd (sendApprovedEmails scenario_C_env scenario_C_opts scenario_C_world))) ''a2''
           = map_of (approved scenario_C_world) ''a2''"
    unfolding scenario_C_run
    by (simp add: collections_of_def existsSync_def scenario_C_world_def)
  from general scenario show ?thesis by blast
qed

theorem send_outcomes_witness:
  "\<not> dryRun_of scenario_C_opts
   \<and> truthy (RESEND_API_KEY scenario_C_env)
   \<and> truthy (fromEmail scenario_C_opts)
   \<and> distinct (listIds (approved scenario_C_world))
   \<and> keyed (approved scenario_C_world)
   \<and> 1 < length (toSend_of scenario_C_opts scenario_C_world)
   \<and> fst (dispatch_outcome scenario_C_env scenario_C_opts scenario_C_world 1)
       = Inl (ProviderFailure ''rejected'')
   \<and> length (results_sent (projr (fst (sendApprovedEmails scenario_C_env scenario_C_opts
                                          scenario_C_world)))) = 1
   \<and> length (results_errors (projr (fst (sendApprovedEmails scenario_C_env scenario_C_opts
                                            scenario_C_world)))) = 1
   \<and> map_of (approved (snd (sendApprovedEmails scenario_C_env scenario_C_opts scenario_C_world)))
        ''a2'' = Some (Parsed (sample_email ''a2'' (Some ''a2@b.edu'')))"
  using send_outcomes [of scenario_C_opts scenario_C_env scenario_C_world 1]
  by (simp add: scenario_C_run)
     (simp add: scenario_defs send_defs keyed_def toSend_of_def dispatch_outcome_def
        after_items_def)




section \<open>One collection per award id\<close>

lemma at_most_one_iff:
  "at_most_one i w \<longleftrightarrow>
     \<not> (existsSync (drafts w) i \<and> existsSync (approved w) i)
   \<and> \<not> (existsSync (drafts w) i \<and> existsSync (sent w) i)
   \<and> \<not> (existsSync (drafts w) i \<and> existsSync (skipped w) i)
   \<and> \<not> (existsSync (approved w) i \<and> existsSync (sent w) i)
   \<and> \<not> (existsSync (approved w) i \<and> existsSync (skipped w) i)
   \<and> \<not> (existsSync (sent w) i \<and> existsSync (skipped w) i)"
  by (auto simp: at_most_one_def collections_of_def)

lemma isAlreadyProcessed_iff:
  "isAlreadyProcessed w i \<longleftrightarrow>
     existsSync (drafts w) i \<or> existsSync (approved w) i \<or> existsSync (sent w) i
       \<or> existsSync (skipped w) i"
  by (auto simp: isAlreadyProcessed_def existsSync_def listIds_def)

lemma generateEmail_store:
  "drafts (snd (generateEmail e rnd sn a w)) = drafts w"
  "approved (snd (generateEmail e rnd sn a w)) = approved w"
  "sent (snd (generateEmail e rnd sn a w)) = sent w"
  "skipped (snd (generateEmail e rnd sn a w)) = skipped w"
  by (simp_all add: generateEmail_def Let_def
      split: sum.splits selection.splits llm_result.splits option.splits block.splits)

lemma generateEmail_Inr:
  assumes "fst (generateEmail e rnd sn a w) = Inr email"
  shows "award_id email = awardId_of a" and "\<not> isAlreadyProcessed w (awardId_of a)"
    and "hasValidContact a"
  using assms
  by (auto simp: generateEmail_def Let_def
      split: if_splits sum.splits selection.splits llm_result.splits option.splits block.splits)

lemma generateEmail_refuses:
  assumes "isAlreadyProcessed w (awardId_of a)"
  shows "generateEmail e rnd sn a w =
           (Inl (if hasValidContact a then AlreadyProcessed (awardId_of a) else NoValidPIEmail), w)"
  using assms by (simp add: generateEmail_def)

lemma moveFile_exists:
  assumes "moveFile k src dst w = Inr w'" and "src \<noteq> dst"
  shows "existsSync (DIRS st w') i \<longleftrightarrow>
           (if st = dst then i = k \<or> existsSync (DIRS st w) i
            else if st = src then i \<noteq> k \<and> existsSync (DIRS st w) i
            else existsSync (DIRS st w) i)"
  using assms
  by (auto simp: moveFile_def Let_def DIRS_set_dir existsSync_writeFileSync existsSync_unlinkSync
      split: option.splits)

lemma moveFile_source:
  assumes "moveFile k src dst w = Inr w'"
  shows "existsSync (DIRS src w) k"
proof -
  from assms obtain c where "map_of (DIRS src w) k = Some c"
    by (auto simp: moveFile_def split: option.splits)
  then show ?thesis
    by (auto simp: existsSync_def dest: map_of_SomeD intro: rev_image_eqI)
qed

lemma moveFile_at_most_one:
  assumes "at_most_one i w" and "moveFile k src dst w = Inr w'" and "src \<noteq> dst"
  shows "at_most_one i w'"
proof -
  note ex = moveFile_exists [OF assms(2,3)]
  have src: "existsSync (DIRS src w) k" by (rule moveFile_source [OF assms(2)])
  have d: "existsSync (drafts w') i = existsSync (DIRS Drafts w') i"
    and a: "existsSync (approved w') i = existsSync (DIRS Approved w') i"
    and s: "existsSync (sent w') i = existsSync (DIRS Sent w') i"
    and k: "existsSync (skipped w') i = existsSync (DIRS Skipped w') i"
    by simp_all
  from assms(1) src show ?thesis
    unfolding at_most_one_iff [of i w'] d a s k ex at_most_one_iff [of i w]
    using assms(3) by (cases src; cases dst; auto)
qed

lemma saveDraft_at_most_one:
  assumes "at_most_one i w" and "\<not> isAlreadyProcessed w (award_id email)"
  shows "at_most_one i (saveDraft email w)"
  using assms
  by (auto simp: at_most_one_iff isAlreadyProcessed_iff saveDraft_def writeJson_def
      existsSync_writeFileSync)

lemma markAsSent_at_most_one:
  assumes "at_most_one i w"
    and "\<not> existsSync (drafts w) (award_id x)" and "\<not> existsSync (skipped w) (award_id x)"
  shows "at_most_one i (snd (markAsSent e x rid w))"
  using assms
  by (auto simp: at_most_one_iff markAsSent_fields existsSync_writeFileSync existsSync_unlinkSync)

lemma markAsSent_approved_record:
  assumes "at_most_one i w" and "existsSync (approved w) (award_id x)"
  shows "at_most_one i (snd (markAsSent e x rid w))"
proof (cases "i = award_id x")
  case True
  with assms have "\<not> existsSync (drafts w) (award_id x)" "\<not> existsSync (skipped w) (award_id x)"
    by (simp_all add: at_most_one_iff)
  with assms(1) show ?thesis by (rule markAsSent_at_most_one)
next
  case False
  with assms(1) show ?thesis
    by (simp add: at_most_one_iff markAsSent_fields existsSync_writeFileSync existsSync_unlinkSync)
qed

lemma at_most_one_sent:
  assumes "at_most_one i w"
    and "\<not> existsSync (drafts w) k" and "\<not> existsSync (skipped w) k"
    and "drafts w' = drafts w" and "skipped w' = skipped w"
    and "approved w' = unlinkSync k (approved w)" and "sent w' = writeFileSync k c (sent w)"
  shows "at_most_one i w'"
proof (cases "i = k")
  case True
  with assms(2,3) show ?thesis
    by (simp add: at_most_one_iff assms(4-7) existsSync_writeFileSync existsSync_unlinkSync)
next
  case False
  with assms(1) show ?thesis
    by (simp add: at_most_one_iff assms(4-7) existsSync_writeFileSync existsSync_unlinkSync)
qed

lemma sendIteration_unchanged:
  assumes "dry \<or> isl (fst (sendEmail e y dry fE fN (snd rw)))"
  shows "approved (snd (sendIteration e dly dry fE fN n j y rw)) = approved (snd rw)"
    and "sent (snd (sendIteration e dly dry fE fN n j y rw)) = sent (snd rw)"
proof -
  show "approved (snd (sendIteration e dly dry fE fN n j y rw)) = approved (snd rw)"
  proof (cases "fst (sendEmail e y dry fE fN (snd rw))")
    case (Inl err)
    then show ?thesis by (rule sendIteration_error(2))
  next
    case (Inr res)
    with assms have dry by simp
    then show ?thesis by (simp add: sendIteration_dry)
  qed
  show "sent (snd (sendIteration e dly dry fE fN n j y rw)) = sent (snd rw)"
  proof (cases "fst (sendEmail e y dry fE fN (snd rw))")
    case (Inl err)
    then show ?thesis by (rule sendIteration_error(3))
  next
    case (Inr res)
    with assms have dry by simp
    then show ?thesis by (simp add: sendIteration_dry)
  qed
qed

lemma sendIteration_at_most_one:
  assumes "at_most_one i (snd rw)" and "existsSync (approved (snd rw)) (award_id y)"
  shows "at_most_one i (snd (sendIteration e dly dry fE fN n j y rw))"
proof (cases "dry \<or> isl (fst (sendEmail e y dry fE fN (snd rw)))")
  case True
  from sendIteration_unchanged [OF True] assms(1) show ?thesis
    by (simp add: at_most_one_iff sendIteration_frame)
next
  case False
  then have dry: "dry = False" by simp
  from False obtain res where res: "fst (sendEmail e y False fE fN (snd rw)) = Inr res"
    by (cases "fst (sendEmail e y False fE fN (snd rw))") (simp_all add: dry)
  have no: "i = award_id y \<Longrightarrow> \<not> existsSync (drafts (snd rw)) (award_id y)"
    "i = award_id y \<Longrightarrow> \<not> existsSync (skipped (snd rw)) (award_id y)"
    using assms by (simp_all add: at_most_one_iff)
  note st = sendIteration_frame [of e dly False fE fN n j y rw]
    sendIteration_success(2,3) [OF res, of dly n j]
  show ?thesis
  proof (cases "i = award_id y")
    case True
    from at_most_one_sent [OF assms(1) no [OF True] st] show ?thesis by (simp add: dry)
  next
    case False
    with assms(1) show ?thesis
      by (simp add: dry at_most_one_iff st existsSync_writeFileSync existsSync_unlinkSync)
  qed
qed

lemma sendIteration_others:
  assumes "existsSync (approved (snd rw)) k" and "k \<noteq> award_id y"
  shows "existsSync (approved (snd (sendIteration e dly dry fE fN n j y rw))) k"
proof (cases "dry \<or> isl (fst (sendEmail e y dry fE fN (snd rw)))")
  case True
  from sendIteration_unchanged(1) [OF True] assms(1) show ?thesis by simp
next
  case False
  then have dry: "dry = False" by simp
  from False obtain res where res: "fst (sendEmail e y False fE fN (snd rw)) = Inr res"
    by (cases "fst (sendEmail e y False fE fN (snd rw))") (simp_all add: dry)
  from sendIteration_success(2) [OF res, of dly n j] assms show ?thesis
    by (simp add: dry existsSync_unlinkSync)
qed

lemma sendLoop_at_most_one:
  assumes "at_most_one i (snd rw)" and "distinct (map award_id ys)"
    and "\<forall>y \<in> set ys. existsSync (approved (snd rw)) (award_id y)"
  shows "at_most_one i (snd (sendLoop e dly dry fE fN n j ys rw))"
  using assms
proof (induction ys arbitrary: j rw)
  case Nil
  then show ?case by simp
next
  case (Cons y ys)
  let ?rw1 = "sendIteration e dly dry fE fN n j y rw"
  have 1: "at_most_one i (snd ?rw1)"
    using Cons.prems by (simp add: sendIteration_at_most_one)
  have 2: "\<forall>y' \<in> set ys. existsSync (approved (snd ?rw1)) (award_id y')"
  proof
    fix y' assume y': "y' \<in> set ys"
    with Cons.prems(2) have "award_id y' \<noteq> award_id y" by (auto simp: image_iff)
    with y' Cons.prems(3) show "existsSync (approved (snd ?rw1)) (award_id y')"
      by (simp add: sendIteration_others)
  qed
  from Cons.IH [OF 1 _ 2] Cons.prems(2) show ?case by simp
qed

text \<open>
  C1. An award id that has a file in at most one of drafts, approved, sent and skipped
  still has so after each operation: after \<open>generateEmail\<close>, and after the
  \<open>saveDraft\<close> that follows a generated email; after the approve and the skip move of
  the review (which otherwise fail, the draft being absent, and change nothing); after
  \<open>markAsSent\<close> of a record whose file is in approved, and more generally of one whose
  id has no file in drafts or skipped; the sender marks the records it takes from the
  approved folder, so that on a folder in the documented format a whole batch of
  \<open>sendApprovedEmails\<close> preserves it as well; an approved record ends in sent only. When the id is in any of the four, \<open>generateEmail\<close> returns an error
  and leaves the world as it was, the history included, so that no model call is made;
  for an award that passes the contact check, which comes first, the error is the
  already-processed one.
\<close>

theorem at_most_one_preserved:
  assumes "at_most_one i w"
  shows "at_most_one i (snd (generateEmail e rnd sn a w))
       \<and> (case fst (generateEmail e rnd sn a w) of
             Inl err \<Rightarrow> True
           | Inr email \<Rightarrow> at_most_one i (saveDraft email (snd (generateEmail e rnd sn a w))))
       \<and> (case approve fid w of Inl err \<Rightarrow> err = ENOENT | Inr w' \<Rightarrow> at_most_one i w')
       \<and> (case skip fid w of Inl err \<Rightarrow> err = ENOENT | Inr w' \<Rightarrow> at_most_one i w')
       \<and> (existsSync (approved w) (award_id x) \<longrightarrow> at_most_one i (snd (markAsSent e x rid w)))
       \<and> (\<not> existsSync (drafts w) (award_id x) \<and> \<not> existsSync (skipped w) (award_id x)
            \<longrightarrow> at_most_one i (snd (markAsSent e x rid w)))
       \<and> (existsSync (approved w) i \<and> award_id x = i
            \<longrightarrow> collections_of (snd (markAsSent e x rid w)) i = [Sent])
       \<and> (distinct (listIds (approved w)) \<and> keyed (approved w)
            \<longrightarrow> at_most_one i (snd (sendApprovedEmails e opts w)))
       \<and> (isAlreadyProcessed w (awardId_of a)
            \<longrightarrow> snd (generateEmail e rnd sn a w) = w
              \<and> isl (fst (generateEmail e rnd sn a w))
              \<and> (hasValidContact a
                   \<longrightarrow> fst (generateEmail e rnd sn a w) = Inl (AlreadyProcessed (awardId_of a))))"
proof -
  have gen: "at_most_one i (snd (generateEmail e rnd sn a w))"
    using assms by (simp add: at_most_one_iff generateEmail_store)
  have save: "case fst (generateEmail e rnd sn a w) of
             Inl err \<Rightarrow> True
           | Inr email \<Rightarrow> at_most_one i (saveDraft email (snd (generateEmail e rnd sn a w)))"
  proof (cases "fst (generateEmail e rnd sn a w)")
    case (Inl err)
    then show ?thesis by simp
  next
    case (Inr email)
    from generateEmail_Inr(1,2) [OF Inr]
    have "\<not> isAlreadyProcessed (snd (generateEmail e rnd sn a w)) (award_id email)"
      by (simp add: isAlreadyProcessed_iff generateEmail_store)
    with gen Inr show ?thesis by (simp add: saveDraft_at_most_one)
  qed
  have mv: "case moveFile fid Drafts dst w of Inl err \<Rightarrow> err = ENOENT | Inr w' \<Rightarrow> at_most_one i w'"
    if "dst \<noteq> Drafts" for dst
  proof (cases "moveFile fid Drafts dst w")
    case (Inl err)
    then show ?thesis by (auto simp: moveFile_def Let_def split: option.splits)
  next
    case (Inr w')
    from moveFile_at_most_one [OF assms Inr] that Inr show ?thesis by auto
  qed
  have mark0: "existsSync (approved w) (award_id x) \<longrightarrow> at_most_one i (snd (markAsSent e x rid w))"
    using assms by (simp add: markAsSent_approved_record)
  have mark: "\<not> existsSync (drafts w) (award_id x) \<and> \<not> existsSync (skipped w) (award_id x)
            \<longrightarrow> at_most_one i (snd (markAsSent e x rid w))"
    using assms by (simp add: markAsSent_at_most_one)
  have mark2: "existsSync (approved w) i \<and> award_id x = i
            \<longrightarrow> collections_of (snd (markAsSent e x rid w)) i = [Sent]"
    using assms
    by (auto simp: at_most_one_iff collections_of_def markAsSent_fields existsSync_writeFileSync
        existsSync_unlinkSync)
  have batch: "at_most_one i (snd (sendApprovedEmails e opts w))"
    if names: "distinct (listIds (approved w))" and keyed: "keyed (approved w)"
  proof -
    have ex: "\<forall>y \<in> set (toSend_of opts w). existsSync (approved w) (award_id y)"
    proof
      fix y assume "y \<in> set (toSend_of opts w)"
      from toSend_of_props(2) [OF names keyed this] show "existsSync (approved w) (award_id y)"
        by (auto simp: existsSync_def dest: map_of_SomeD intro: rev_image_eqI)
    qed
    have "at_most_one i (snd (sendLoop e dly dry fE fN n 0 (toSend_of opts w) (r, w)))"
      for dly dry fE fN n r
      by (rule sendLoop_at_most_one) (simp_all add: assms toSend_of_props(1) [OF names keyed] ex)
    then show ?thesis
      using assms by (simp add: sendApprovedEmails_def Let_def split_def toSend_of_def)
  qed
  have refuse: "isAlreadyProcessed w (awardId_of a)
            \<longrightarrow> snd (generateEmail e rnd sn a w) = w
              \<and> isl (fst (generateEmail e rnd sn a w))
              \<and> (hasValidContact a
                   \<longrightarrow> fst (generateEmail e rnd sn a w) = Inl (AlreadyProcessed (awardId_of a)))"
    by (simp add: generateEmail_refuses)
  from gen save mv [of Approved] mv [of Skipped] mark0 mark mark2 batch refuse show ?thesis
    by (simp add: approve_def skip_def)
qed


lemmas gen_defs = generateEmail_def hasValidContact_def extractPIInfo_def awardId_of_def
  isAlreadyProcessed_def selectVariants_def loadAllVariants_def filterEnabled_def randomSelect_def
  gen_env_def gen_variants_def scenario_B_variants_def scenario_award_def scenario_A_raw_def
  normalize_def or_str_def js_or_def truthy_def empty_pi_def Let_def listIds_def
  scenario_C_env_def scenario_C_world_def sample_email_def

theorem at_most_one_preserved_witness:
  "at_most_one ''a1'' scenario_C_world
   \<and> existsSync (approved scenario_C_world) (award_id (sample_email ''a1'' (Some ''a1@b.edu'')))
   \<and> at_most_one ''a1''
        (snd (markAsSent gen_env (sample_email ''a1'' (Some ''a1@b.edu'')) (Some ''re_1'')
                scenario_C_world))
   \<and> collections_of
        (snd (markAsSent gen_env (sample_email ''a1'' (Some ''a1@b.edu'')) (Some ''re_1'')
                scenario_C_world)) ''a1'' = [Sent]
   \<and> isAlreadyProcessed scenario_C_world (awardId_of (scenario_award\<lparr>awardNumber := ''a1''\<rparr>))
   \<and> hasValidContact (scenario_award\<lparr>awardNumber := ''a1''\<rparr>)
   \<and> generateEmail gen_env (1 / 2, 0, 0) None (scenario_award\<lparr>awardNumber := ''a1''\<rparr>)
        scenario_C_world
       = (Inl (AlreadyProcessed ''a1''), scenario_C_world)
   \<and> at_most_one ''a1'' (snd (sendApprovedEmails gen_env scenario_C_opts scenario_C_world))"
proof -
  have one: "at_most_one ''a1'' scenario_C_world"
    and ex: "existsSync (approved scenario_C_world) (award_id (sample_email ''a1'' (Some ''a1@b.edu'')))"
    and ex': "existsSync (approved scenario_C_world) ''a1''"
    and aid: "award_id (sample_email ''a1'' (Some ''a1@b.edu'')) = ''a1''"
    and fmt: "distinct (listIds (approved scenario_C_world))" "keyed (approved scenario_C_world)"
    by (simp_all add: at_most_one_def collections_of_def existsSync_def listIds_def keyed_def
        scenario_C_world_def sample_email_def)
  have proc: "isAlreadyProcessed scenario_C_world (awardId_of (scenario_award\<lparr>awardNumber := ''a1''\<rparr>))"
    and valid: "hasValidContact (scenario_award\<lparr>awardNumber := ''a1''\<rparr>)"
    and awd: "awardId_of (scenario_award\<lparr>awardNumber := ''a1''\<rparr>) = ''a1''"
    by (simp_all add: gen_defs)
  from at_most_one_preserved [OF one, where e = gen_env and rnd = "(1 / 2, 0, 0)" and sn = None
      and a = "scenario_award\<lparr>awardNumber := ''a1''\<rparr>"
      and x = "sample_email ''a1'' (Some ''a1@b.edu'')" and rid = "Some ''re_1''"
      and opts = scenario_C_opts and fid = "''a1''"]
    one ex ex' aid fmt proc valid awd
  show ?thesis
    by (simp add: prod_eq_iff)
qed

section \<open>Properties of the award loader\<close>

lemma startsWith_iff: "startsWith s k \<longleftrightarrow> (\<exists>post. s = k @ post)"
  by (induction s k rule: startsWith.induct) auto

lemma str_includes_iff: "str_includes s k \<longleftrightarrow> (\<exists>pre post. s = pre @ k @ post)"
proof (induction s)
  case Nil
  show ?case by auto
next
  case (Cons c s)
  show ?case
  proof
    assume "str_includes (c # s) k"
    then consider "startsWith (c # s) k" | "str_includes s k" by auto
    then show "\<exists>pre post. c # s = pre @ k @ post"
    proof cases
      case 1
      then obtain post where "c # s = k @ post" by (auto simp: startsWith_iff)
      then have "c # s = [] @ k @ post" by simp
      then show ?thesis by blast
    next
      case 2
      with Cons.IH obtain pre post where "s = pre @ k @ post" by blast
      then have "c # s = (c # pre) @ k @ post" by simp
      then show ?thesis by blast
    qed
  next
    assume "\<exists>pre post. c # s = pre @ k @ post"
    then obtain pre post where eq: "c # s = pre @ k @ post" by blast
    show "str_includes (c # s) k"
    proof (cases pre)
      case Nil
      with eq have "startsWith (c # s) k" by (auto simp: startsWith_iff)
      then show ?thesis by simp
    next
      case (Cons p pre')
      with eq have "s = pre' @ k @ post" by simp
      with Cons.IH have "str_includes s k" by blast
      then show ?thesis by simp
    qed
  qed
qed

lemma matchesKeywords_iff:
  assumes "text \<noteq> []"
  shows "matchesKeywords text keywords \<longleftrightarrow>
           keywords = [] \<or> (\<exists>kw \<in> set keywords. \<exists>pre post. toLowerCase text = pre @ toLowerCase kw @ post)"
  using assms by (auto simp: matchesKeywords_def Let_def list_ex_iff str_includes_iff)

lemma read_all_entries:
  assumes d: "distinct (listIds dir)"
  shows "List.map_filter (\<lambda>fid. map_option (Pair fid) (readJson dir fid)) (listIds dir)
           = parsed_entries dir"
proof -
  have "map_option (Pair (fst entry)) (readJson dir (fst entry))
          = (case snd entry of Unreadable \<Rightarrow> None | Parsed x \<Rightarrow> Some (fst entry, x))"
    if "entry \<in> set dir" for entry
  proof -
    from that d have "map_of dir (fst entry) = Some (snd entry)" by (simp add: listIds_def)
    then show ?thesis by (simp add: readJson_def split: json_file.splits)
  qed
  then have "map (\<lambda>fid. map_option (Pair fid) (readJson dir fid)) (map fst dir) =
      map (\<lambda>entry. case snd entry of Unreadable \<Rightarrow> None | Parsed x \<Rightarrow> Some (fst entry, x)) dir"
    by (simp add: comp_def cong: map_cong)
  moreover have "List.map_filter (\<lambda>x. x)
          (map (\<lambda>entry. case snd entry of Unreadable \<Rightarrow> None | Parsed x \<Rightarrow> Some (fst entry, x)) dir')
        = parsed_entries dir'" for dir' :: "'a folder"
    by (induction dir')
       (auto simp: parsed_entries_def List.map_filter_simps split: json_file.splits)
  moreover have "List.map_filter f xs = List.map_filter (\<lambda>x. x) (map f xs)" for f :: "string \<Rightarrow> (string \<times> 'a) option" and xs
    by (induction xs) (auto simp: List.map_filter_simps split: option.splits)
  ultimately show ?thesis by (simp only: listIds_def)
qed

lemma loadAwards_loop_eq:
  "loadAwards_loop e year keywords ids =
     filter (\<lambda>a. matchesKeywords (searchText a) keywords)
       (map (\<lambda>entry. normalize (fst entry) year (snd entry))
          (List.map_filter (\<lambda>fid. map_option (Pair fid) (loadAward e fid year)) ids))"
  by (induction ids) (auto simp: List.map_filter_simps Let_def split: option.splits)

lemma searchText_nonempty: "searchText a \<noteq> []"
  by (simp add: searchText_def)

lemma js_or_choice:
  "or_str (js_or a b) d =
     (if a \<notin> {None, Some []} then the a else if b \<notin> {None, Some []} then the b else d)"
  by (cases a; cases b) (auto simp: or_str_def js_or_def truthy_def)

lemmas load_defs = loadAwards_def listAwardIds_def loadAward_def listIds_def readJson_def
  normalize_def searchText_def matchesKeywords_def toLowerCase_def upper_case_def or_str_def
  js_or_def truthy_def Let_def

text \<open>
  C8. \<open>loadAwards\<close> returns, in listing order, the normalized form of exactly those
  parsed records of the year's folder that match the keywords; a file that cannot be read
  or parsed yields nothing. A record matches when the keyword list is empty or when its
  normalized title, a space and its normalized abstract, taken in lower case, contain one
  of the keywords taken in lower case; so an empty list retains every parsed record. The
  normalized title is the NSF field \<open>awd_titl_txt\<close> when that is a non-empty string, else
  the alias \<open>title\<close> when that is one, else the empty string; the abstract likewise from
  \<open>awd_abstract_narration\<close> and \<open>abstractText\<close>; the award number from \<open>awd_id\<close> and
  \<open>awardNumber\<close>, else the file's id; the returned record carries the file's id and the
  year, and every other field as parsed. In Scenario A the award with title X and abstract
  Y is excluded under the keyword DFT and included under no keyword. The directory
  listing is one without duplicate file names.
\<close>

theorem loadAwards_keyword_filter:
  assumes "distinct (listIds (awards_dir e year))"
  shows "loadAwards e year keywords =
           filter (\<lambda>a. keywords = []
                         \<or> (\<exists>kw \<in> set keywords. \<exists>pre post.
                               toLowerCase (title a @ '' '' @ abstractText a)
                                 = pre @ toLowerCase kw @ post))
             (map (\<lambda>entry. normalize (fst entry) year (snd entry))
                (parsed_entries (awards_dir e year)))
       \<and> (\<forall>fid raw.
             title (normalize fid year raw) =
               (if awd_titl_txt raw \<notin> {None, Some []} then the (awd_titl_txt raw)
                else if title raw \<notin> {None, Some []} then the (title raw) else [])
           \<and> abstractText (normalize fid year raw) =
               (if awd_abstract_narration raw \<notin> {None, Some []}
                then the (awd_abstract_narration raw)
                else if abstractText raw \<notin> {None, Some []} then the (abstractText raw) else [])
           \<and> awardNumber (normalize fid year raw) =
               (if awd_id raw \<notin> {None, Some []} then the (awd_id raw)
                else if awardNumber raw \<notin> {None, Some []} then the (awardNumber raw) else fid)
           \<and> file_id (normalize fid year raw) = fid
           \<and> file_year (normalize fid year raw) = year
           \<and> awd_titl_txt (normalize fid year raw) = awd_titl_txt raw
           \<and> awd_abstract_narration (normalize fid year raw) = awd_abstract_narration raw
           \<and> awd_id (normalize fid year raw) = awd_id raw
           \<and> pi_arr (normalize fid year raw) = pi_arr raw
           \<and> inst (normalize fid year raw) = inst raw
           \<and> piFirstName (normalize fid year raw) = piFirstName raw
           \<and> piLastName (normalize fid year raw) = piLastName raw
           \<and> piEmail (normalize fid year raw) = piEmail raw
           \<and> awardeeName (normalize fid year raw) = awardeeName raw
           \<and> awd_amount (normalize fid year raw) = awd_amount raw
           \<and> tot_intn_awd_amt (normalize fid year raw) = tot_intn_awd_amt raw)
       \<and> loadAwards e year [] =
           map (\<lambda>entry. normalize (fst entry) year (snd entry)) (parsed_entries (awards_dir e year))
       \<and> parsed_entries (awards_dir scenario_A_env ''2023'') = [(''2301234'', scenario_A_raw)]
       \<and> title scenario_A_raw = Some ''X'' \<and> abstractText scenario_A_raw = Some ''Y''
       \<and> loadAwards scenario_A_env ''2023'' [''DFT''] = []
       \<and> loadAwards scenario_A_env ''2023'' [] = [scenario_A_loaded]"
proof -
  have eq: "loadAwards e year kws =
           filter (\<lambda>a. matchesKeywords (searchText a) kws)
             (map (\<lambda>entry. normalize (fst entry) year (snd entry))
                (parsed_entries (awards_dir e year)))" for kws
    using read_all_entries [OF assms]
    by (simp add: loadAwards_def loadAwards_loop_eq listAwardIds_def loadAward_def)
  have match: "matchesKeywords (searchText a) keywords \<longleftrightarrow>
                 keywords = []
                 \<or> (\<exists>kw \<in> set keywords. \<exists>pre post.
                       toLowerCase (title a @ '' '' @ abstractText a)
                         = pre @ toLowerCase kw @ post)" for a :: "string award"
    using matchesKeywords_iff [OF searchText_nonempty, of a "keywords"]
    by (simp add: searchText_def)
  have empty: "loadAwards e year [] =
           map (\<lambda>entry. normalize (fst entry) year (snd entry)) (parsed_entries (awards_dir e year))"
    by (simp add: eq matchesKeywords_def)
  have norm: "(\<forall>fid raw.
             title (normalize fid year raw) =
               (if awd_titl_txt raw \<notin> {None, Some []} then the (awd_titl_txt raw)
                else if title raw \<notin> {None, Some []} then the (title raw) else [])
           \<and> abstractText (normalize fid year raw) =
               (if awd_abstract_narration raw \<notin> {None, Some []}
                then the (awd_abstract_narration raw)
                else if abstractText raw \<notin> {None, Some []} then the (abstractText raw) else [])
           \<and> awardNumber (normalize fid year raw) =
               (if awd_id raw \<notin> {None, Some []} then the (awd_id raw)
                else if awardNumber raw \<notin> {None, Some []} then the (awardNumber raw) else fid)
           \<and> file_id (normalize fid year raw) = fid
           \<and> file_year (normalize fid year raw) = year
           \<and> awd_titl_txt (normalize fid year raw) = awd_titl_txt raw
           \<and> awd_abstract_narration (normalize fid year raw) = awd_abstract_narration raw
           \<and> awd_id (normalize fid year raw) = awd_id raw
           \<and> pi_arr (normalize fid year raw) = pi_arr raw
           \<and> inst (normalize fid year raw) = inst raw
           \<and> piFirstName (normalize fid year raw) = piFirstName raw
           \<and> piLastName (normalize fid year raw) = piLastName raw
           \<and> piEmail (normalize fid year raw) = piEmail raw
           \<and> awardeeName (normalize fid year raw) = awardeeName raw
           \<and> awd_amount (normalize fid year raw) = awd_amount raw
           \<and> tot_intn_awd_amt (normalize fid year raw) = tot_intn_awd_amt raw)"
    by (simp add: normalize_def js_or_choice)
  have A0: "parsed_entries (awards_dir scenario_A_env ''2023'') = [(''2301234'', scenario_A_raw)]"
    by (simp add: scenario_A_env_def parsed_entries_def)
  have A1: "loadAwards scenario_A_env ''2023'' [''DFT''] = []"
    by (simp add: load_defs scenario_A_env_def scenario_A_raw_def)
  have A2: "loadAwards scenario_A_env ''2023'' [] = [scenario_A_loaded]"
    by (simp add: load_defs scenario_A_env_def scenario_A_raw_def scenario_A_loaded_def)
  have A3: "title scenario_A_raw = Some ''X'' \<and> abstractText scenario_A_raw = Some ''Y''"
    by (simp add: scenario_A_raw_def)
  have main: "loadAwards e year keywords =
           filter (\<lambda>a. keywords = []
                         \<or> (\<exists>kw \<in> set keywords. \<exists>pre post.
                               toLowerCase (title a @ '' '' @ abstractText a)
                                 = pre @ toLowerCase kw @ post))
             (map (\<lambda>entry. normalize (fst entry) year (snd entry))
                (parsed_entries (awards_dir e year)))"
    unfolding eq [of "keywords"] by (simp only: match)
  from main norm empty A0 A1 A2 A3 show ?thesis by blast
qed

text \<open>
  An award that matches by its NSF abstract alone, in another case, is retained; the
  aliases that the NSF fields override are not searched; and a keyword with the capital
  0xC9 finds the word written with 0xE9.
\<close>

theorem loadAwards_keyword_filter_witness:
  "distinct (listIds (awards_dir keyword_env ''2023''))
   \<and> parsed_entries (awards_dir keyword_env ''2023'')
       = [(''f1'', keyword_raw), (''2301234'', scenario_A_raw)]
   \<and> normalize ''f1'' ''2023'' keyword_raw = keyword_award
   \<and> loadAwards keyword_env ''2023'' [''theory''] = [keyword_award]
   \<and> loadAwards keyword_env ''2023'' [''DFT''] = []
   \<and> loadAwards keyword_env ''2023'' [''dft'', ''X Y''] = [scenario_A_loaded]
   \<and> loadAwards keyword_env ''2023'' [CHR 0xC9 # ''COLE''] = [keyword_award]
   \<and> loadAwards keyword_env ''2023'' [] = [keyword_award, scenario_A_loaded]"
proof -
  have names: "distinct (listIds (awards_dir keyword_env ''2023''))"
    and entries: "parsed_entries (awards_dir keyword_env ''2023'')
                    = [(''f1'', keyword_raw), (''2301234'', scenario_A_raw)]"
    by (simp_all add: keyword_env_def listIds_def parsed_entries_def)
  have n1: "normalize ''f1'' ''2023'' keyword_raw = keyword_award"
    and n2: "normalize ''2301234'' ''2023'' scenario_A_raw = scenario_A_loaded"
    by (simp_all add: normalize_def or_str_def js_or_def truthy_def keyword_raw_def
        keyword_award_def scenario_A_raw_def scenario_A_loaded_def)
  have step: "loadAwards keyword_env ''2023'' kws =
      filter (\<lambda>a. kws = []
                    \<or> (\<exists>kw \<in> set kws.
                          str_includes (toLowerCase (title a @ '' '' @ abstractText a))
                            (toLowerCase kw)))
        [keyword_award, scenario_A_loaded]" for kws
    using loadAwards_keyword_filter [OF names, of kws]
    by (simp add: entries n1 n2 str_includes_iff)
  have run: "loadAwards keyword_env ''2023'' [''theory''] = [keyword_award]"
    "loadAwards keyword_env ''2023'' [''DFT''] = []"
    "loadAwards keyword_env ''2023'' [''dft'', ''X Y''] = [scenario_A_loaded]"
    "loadAwards keyword_env ''2023'' [CHR 0xC9 # ''COLE''] = [keyword_award]"
    "loadAwards keyword_env ''2023'' [] = [keyword_award, scenario_A_loaded]"
    unfolding step
    by (simp_all add: toLowerCase_def upper_case_def keyword_award_def scenario_A_loaded_def)
  from names entries n1 run show ?thesis by simp
qed

section \<open>Properties of the draft generator\<close>

lemma str_includes_char: "str_includes s [c] \<longleftrightarrow> c \<in> set s"
  by (induction s) (auto simp: startsWith_iff)

lemma generateEmail_invalid:
  assumes "\<not> hasValidContact a"
  shows "generateEmail e rnd sn a w = (Inl NoValidPIEmail, w)"
  using assms by (simp add: generateEmail_def)

text \<open>
  C5. For an award without a valid contact, \<open>generateEmail\<close> raises its error and
  leaves the world as it was, the history included: no model call is made for such an
  award, and whenever the history has grown the award had a valid contact. The contact is
  valid exactly when \<open>extractPIInfo\<close> finds a PI email and that email contains an
  at sign.
\<close>

theorem invalid_contact_never_generated:
  "(\<not> hasValidContact a \<longrightarrow> generateEmail e rnd sn a w = (Inl NoValidPIEmail, w))
   \<and> (trace (snd (generateEmail e rnd sn a w)) \<noteq> trace w \<longrightarrow> hasValidContact a)
   \<and> (hasValidContact a \<longleftrightarrow>
        (\<exists>m. info_piEmail (extractPIInfo a) = Some m \<and> CHR ''@'' \<in> set m))"
proof -
  have 1: "\<not> hasValidContact a \<longrightarrow> generateEmail e rnd sn a w = (Inl NoValidPIEmail, w)"
    by (simp add: generateEmail_invalid)
  then have 2: "trace (snd (generateEmail e rnd sn a w)) \<noteq> trace w \<longrightarrow> hasValidContact a"
    by auto
  have 3: "hasValidContact a \<longleftrightarrow>
        (\<exists>m. info_piEmail (extractPIInfo a) = Some m \<and> CHR ''@'' \<in> set m)"
    by (cases "info_piEmail (extractPIInfo a)")
       (auto simp: hasValidContact_def Let_def truthy_def str_includes_char)
  from 1 2 3 show ?thesis by blast
qed

theorem invalid_contact_never_generated_witness:
  "\<not> hasValidContact (scenario_award\<lparr>piEmail := None\<rparr>)
   \<and> generateEmail gen_env (1 / 2, 0, 0) None (scenario_award\<lparr>piEmail := None\<rparr>) scenario_C_world
       = (Inl NoValidPIEmail, scenario_C_world)
   \<and> hasValidContact scenario_award"
proof -
  have c: "\<not> hasValidContact (scenario_award\<lparr>piEmail := None\<rparr>)"
    and v: "hasValidContact scenario_award"
    by (simp_all add: hasValidContact_def extractPIInfo_def scenario_award_def scenario_A_raw_def
      normalize_def or_str_def js_or_def truthy_def empty_pi_def Let_def)
  from invalid_contact_never_generated [of "scenario_award\<lparr>piEmail := None\<rparr>" gen_env
      "(1 / 2, 0, 0)" None scenario_C_world] c v
  show ?thesis by blast
qed

lemma nth_int_mem: "0 \<le> i \<Longrightarrow> i < int (length arr) \<Longrightarrow> arr ! nat i \<in> set arr"
  by (rule nth_mem) (simp add: nat_less_iff)

lemma randomSelect_mem: "randomSelect r arr = Some x \<Longrightarrow> x \<in> set arr"
  by (auto simp: randomSelect_def Let_def nth_int_mem split: if_splits)

lemma randomSelect_defined:
  assumes "in_unit_interval r" and "arr \<noteq> []"
  shows "\<exists>x \<in> set arr. randomSelect r arr = Some x"
proof -
  let ?n = "length arr"
  from assms have n: "0 < ?n" by simp
  from assms(1) have r: "0 \<le> r" "r < 1" by (simp_all add: in_unit_interval_def)
  have lo: "0 \<le> r * of_nat ?n" using r(1) by simp
  have "r * of_nat ?n < 1 * of_nat ?n" using r(2) n by (intro mult_strict_right_mono) simp_all
  then have hi: "r * of_nat ?n < of_int (int ?n)" by simp
  have "0 \<le> \<lfloor>r * of_nat ?n\<rfloor>" using lo by simp
  moreover have "\<lfloor>r * of_nat ?n\<rfloor> < int ?n" using hi by (simp only: floor_less_iff)
  ultimately show ?thesis
    by (simp add: randomSelect_def Let_def nth_int_mem)
qed

lemma filterEnabled_mem: "x \<in> set (filterEnabled xs) \<longleftrightarrow> x \<in> set xs \<and> enabled x \<noteq> Some False"
  by (auto simp: filterEnabled_def)

text \<open>
  C4. With \<open>variants.json\<close> present: when a facet has no enabled item,
  \<open>selectVariants\<close> fails with the configuration error of that facet; when every facet
  has one, and the three random draws are values of \<open>Math.random()\<close>, it returns
  one item of each facet, none of them marked disabled; and whatever the draws, an item
  it returns belongs to its facet and is not marked disabled. In Scenario B every run
  fails with the error about the descriptions, so that the disabled description is
  never selected.
\<close>

theorem selectVariants_enabled_only:
  assumes "variants_json e = Some v"
  shows "(filterEnabled (templates v) = [] \<or> filterEnabled (ouro_descriptions v) = []
            \<or> filterEnabled (call_to_actions v) = []
          \<longrightarrow> selectVariants e rnd \<in> {Inl NoEnabledTemplates, Inl NoEnabledOuroDescriptions,
                                        Inl NoEnabledCallToActions})
       \<and> (filterEnabled (templates v) \<noteq> [] \<and> filterEnabled (ouro_descriptions v) \<noteq> []
            \<and> filterEnabled (call_to_actions v) \<noteq> []
            \<and> in_unit_interval (fst rnd) \<and> in_unit_interval (fst (snd rnd))
            \<and> in_unit_interval (snd (snd rnd))
          \<longrightarrow> (\<exists>t d c. selectVariants e rnd = Inr (Selection (Some t) (Some d) (Some c))
                \<and> t \<in> set (templates v) \<and> enabled t \<noteq> Some False
                \<and> d \<in> set (ouro_descriptions v) \<and> enabled d \<noteq> Some False
                \<and> c \<in> set (call_to_actions v) \<and> enabled c \<noteq> Some False))
       \<and> (\<forall>t d c. selectVariants e rnd = Inr (Selection t d c)
          \<longrightarrow> (\<forall>x. t = Some x \<longrightarrow> x \<in> set (templates v) \<and> enabled x \<noteq> Some False)
            \<and> (\<forall>x. d = Some x \<longrightarrow> x \<in> set (ouro_descriptions v) \<and> enabled x \<noteq> Some False)
            \<and> (\<forall>x. c = Some x \<longrightarrow> x \<in> set (call_to_actions v) \<and> enabled x \<noteq> Some False))
       \<and> (\<forall>r. selectVariants scenario_B_env r = Inl NoEnabledOuroDescriptions)"
proof -
  have 1: "filterEnabled (templates v) = [] \<or> filterEnabled (ouro_descriptions v) = []
            \<or> filterEnabled (call_to_actions v) = []
          \<longrightarrow> selectVariants e rnd \<in> {Inl NoEnabledTemplates, Inl NoEnabledOuroDescriptions,
                                        Inl NoEnabledCallToActions}"
    using assms by (auto simp: selectVariants_def loadAllVariants_def Let_def)
  have 2: "\<exists>t d c. selectVariants e rnd = Inr (Selection (Some t) (Some d) (Some c))
                \<and> t \<in> set (templates v) \<and> enabled t \<noteq> Some False
                \<and> d \<in> set (ouro_descriptions v) \<and> enabled d \<noteq> Some False
                \<and> c \<in> set (call_to_actions v) \<and> enabled c \<noteq> Some False"
    if ne: "filterEnabled (templates v) \<noteq> []" "filterEnabled (ouro_descriptions v) \<noteq> []"
      "filterEnabled (call_to_actions v) \<noteq> []"
      and u: "in_unit_interval (fst rnd)" "in_unit_interval (fst (snd rnd))"
      "in_unit_interval (snd (snd rnd))"
  proof -
    from randomSelect_defined [OF u(1) ne(1)] obtain t
      where t: "t \<in> set (filterEnabled (templates v))"
        "randomSelect (fst rnd) (filterEnabled (templates v)) = Some t" by blast
    from randomSelect_defined [OF u(2) ne(2)] obtain d
      where d: "d \<in> set (filterEnabled (ouro_descriptions v))"
        "randomSelect (fst (snd rnd)) (filterEnabled (ouro_descriptions v)) = Some d" by blast
    from randomSelect_defined [OF u(3) ne(3)] obtain c
      where c: "c \<in> set (filterEnabled (call_to_actions v))"
        "randomSelect (snd (snd rnd)) (filterEnabled (call_to_actions v)) = Some c" by blast
    have "selectVariants e rnd = Inr (Selection (Some t) (Some d) (Some c))"
      using assms ne t(2) d(2) c(2) by (simp add: selectVariants_def loadAllVariants_def Let_def)
    with t(1) d(1) c(1) show ?thesis by (simp add: filterEnabled_mem)
  qed
  have 3: "(\<forall>x. t = Some x \<longrightarrow> x \<in> set (templates v) \<and> enabled x \<noteq> Some False)
            \<and> (\<forall>x. d = Some x \<longrightarrow> x \<in> set (ouro_descriptions v) \<and> enabled x \<noteq> Some False)
            \<and> (\<forall>x. c = Some x \<longrightarrow> x \<in> set (call_to_actions v) \<and> enabled x \<noteq> Some False)"
    if "selectVariants e rnd = Inr (Selection t d c)" for t d c
    using that assms
    by (auto simp: selectVariants_def loadAllVariants_def Let_def filterEnabled_mem
        split: if_splits dest!: randomSelect_mem)
  have 4: "selectVariants scenario_B_env r = Inl NoEnabledOuroDescriptions" for r
    by (simp add: selectVariants_def loadAllVariants_def Let_def filterEnabled_def
        scenario_B_env_def scenario_B_variants_def)
  from 1 2 3 4 show ?thesis by blast
qed

theorem selectVariants_enabled_only_witness:
  "variants_json gen_env = Some gen_variants
   \<and> filterEnabled (templates gen_variants) \<noteq> []
   \<and> filterEnabled (ouro_descriptions gen_variants) \<noteq> []
   \<and> filterEnabled (call_to_actions gen_variants) \<noteq> []
   \<and> in_unit_interval (1 / 2) \<and> in_unit_interval 0
   \<and> selectVariants gen_env (1 / 2, 0, 0) =
       Inr (Selection (Some (templates gen_variants ! 1))
                      (Some (ouro_descriptions gen_variants ! 0))
                      (Some (call_to_actions gen_variants ! 0)))
   \<and> enabled (templates gen_variants ! 1) \<noteq> Some False
   \<and> enabled (ouro_descriptions gen_variants ! 0) \<noteq> Some False
   \<and> enabled (call_to_actions gen_variants ! 0) \<noteq> Some False"
proof -
  have cfg: "variants_json gen_env = Some gen_variants"
    by (simp add: gen_env_def)
  have pools: "filterEnabled (templates gen_variants) \<noteq> []"
    "filterEnabled (ouro_descriptions gen_variants) \<noteq> []"
    "filterEnabled (call_to_actions gen_variants) \<noteq> []"
    and draws: "in_unit_interval (1 / 2)" "in_unit_interval 0"
    by (simp_all add: filterEnabled_def gen_variants_def scenario_B_variants_def
        in_unit_interval_def)
  have run: "selectVariants gen_env (1 / 2, 0, 0) =
       Inr (Selection (Some (templates gen_variants ! 1))
                      (Some (ouro_descriptions gen_variants ! 0))
                      (Some (call_to_actions gen_variants ! 0)))"
    by (simp add: selectVariants_def loadAllVariants_def filterEnabled_def
        randomSelect_def gen_env_def gen_variants_def scenario_B_variants_def Let_def)
  from selectVariants_enabled_only [OF cfg, of "(1 / 2, 0, 0)"] run
  have "enabled (templates gen_variants ! 1) \<noteq> Some False
      \<and> enabled (ouro_descriptions gen_variants ! 0) \<noteq> Some False
      \<and> enabled (call_to_actions gen_variants ! 0) \<noteq> Some False"
    by blast
  with cfg pools draws run show ?thesis by simp
qed

section \<open>The documented file format is maintained\<close>

text \<open>
  Every write of the pipeline names the file by the award id of the record it holds:
  \<open>saveDraft\<close> writes \<open>drafts/<award_id>.json\<close>, the review moves keep the file name,
  and \<open>markAsSent\<close> writes \<open>sent/<award_id>.json\<close>. So a store in the documented format
  stays in it under draft generation, review and sending.
\<close>

lemma documented_format_iff: "documented_format w \<longleftrightarrow> (\<forall>st. well_named (DIRS st w))"
proof
  assume "documented_format w"
  then show "\<forall>st. well_named (DIRS st w)"
  proof -
    assume f: "documented_format w"
    have "well_named (DIRS st w)" for st
      using f by (cases st) (simp_all add: documented_format_def)
    then show ?thesis by blast
  qed
next
  assume a: "\<forall>st. well_named (DIRS st w)"
  from a [rule_format, of Drafts] a [rule_format, of Approved] a [rule_format, of Sent]
    a [rule_format, of Skipped]
  show "documented_format w" by (simp add: documented_format_def)
qed

lemma keyed_iff:
  "keyed dir \<longleftrightarrow> (\<forall>k x. (k, Parsed x) \<in> set dir \<longrightarrow> award_id x = k)"
  by (auto simp: keyed_def list_all_iff split: json_file.splits)

lemma set_writeFileSync: "set (writeFileSync k c dir) \<subseteq> insert (k, c) (set dir)"
  by (induction k c dir rule: writeFileSync.induct) auto

lemma distinct_writeFileSync:
  "distinct (listIds dir) \<Longrightarrow> distinct (listIds (writeFileSync k c dir))"
proof (induction k c dir rule: writeFileSync.induct)
  case (1 name c)
  show ?case by (simp add: listIds_def)
next
  case (2 name c n x dir)
  then show ?case
    using keys_writeFileSync [of name c dir]
    by (auto simp: listIds_def)
qed

lemma well_named_write:
  assumes "well_named dir" and "\<And>x. c = Parsed x \<Longrightarrow> award_id x = k"
  shows "well_named (writeFileSync k c dir)"
proof -
  have "keyed (writeFileSync k c dir)"
    using assms set_writeFileSync [of k c dir] unfolding keyed_iff well_named_def by blast
  with assms(1) show ?thesis by (simp add: well_named_def distinct_writeFileSync)
qed

lemma well_named_unlink: "well_named dir \<Longrightarrow> well_named (unlinkSync k dir)"
  by (auto simp: well_named_def keyed_iff unlinkSync_def listIds_def distinct_map_filter)

lemma well_named_lookup:
  assumes "well_named dir" and "map_of dir k = Some (Parsed x)"
  shows "award_id x = k"
  using assms by (auto simp: well_named_def keyed_iff dest: map_of_SomeD)

lemma well_named_write_email:
  "well_named dir \<Longrightarrow> award_id x = k \<Longrightarrow> well_named (writeFileSync k (Parsed x) dir)"
  by (rule well_named_write) simp_all

lemma format_saveDraft: "documented_format w \<Longrightarrow> documented_format (saveDraft email w)"
  by (simp add: documented_format_def saveDraft_def writeJson_def well_named_write_email)

lemma format_markAsSent:
  "documented_format w \<Longrightarrow> documented_format (snd (markAsSent e x rid w))"
  by (simp add: documented_format_def markAsSent_fields well_named_write_email well_named_unlink)

lemma format_generateEmail:
  "documented_format w \<Longrightarrow> documented_format (snd (generateEmail e rnd sn a w))"
  by (simp add: documented_format_def generateEmail_store)

lemma format_moveFile:
  assumes "documented_format w" and "moveFile k src dst w = Inr w'"
  shows "documented_format w'"
proof -
  from assms(2) obtain c where c: "map_of (DIRS src w) k = Some c"
    and w': "w' = set_dir dst (writeFileSync k c
                    (DIRS dst (set_dir src (unlinkSync k (DIRS src w)) w)))
                  (set_dir src (unlinkSync k (DIRS src w)) w)"
    by (auto simp: moveFile_def Let_def split: option.splits)
  from assms(1) have wn: "well_named (DIRS st w)" for st
    by (simp add: documented_format_iff)
  have ok: "award_id x = k" if "c = Parsed x" for x
    using well_named_lookup [OF wn [of src]] c that by simp
  have "well_named (DIRS st w')" for st
    using wn ok by (simp add: w' DIRS_set_dir well_named_write well_named_unlink)
  then show ?thesis by (simp add: documented_format_iff)
qed

lemma format_sendIteration:
  assumes "documented_format (snd rw)"
  shows "documented_format (snd (sendIteration e dly dry fE fN n j y rw))"
proof (cases "dry \<or> isl (fst (sendEmail e y dry fE fN (snd rw)))")
  case True
  from sendIteration_unchanged [OF True] assms show ?thesis
    by (simp add: documented_format_def sendIteration_frame)
next
  case False
  then have dry: "dry = False" by simp
  from False obtain res where res: "fst (sendEmail e y False fE fN (snd rw)) = Inr res"
    by (cases "fst (sendEmail e y False fE fN (snd rw))") (simp_all add: dry)
  from assms show ?thesis
    by (simp add: dry documented_format_def sendIteration_frame
        sendIteration_success(2,3) [OF res] well_named_write_email well_named_unlink)
qed

lemma format_sendLoop:
  assumes "documented_format (snd rw)"
  shows "documented_format (snd (sendLoop e dly dry fE fN n j ys rw))"
  using assms by (induction ys arbitrary: j rw) (simp_all add: format_sendIteration)

lemma format_sendApprovedEmails:
  assumes "documented_format w"
  shows "documented_format (snd (sendApprovedEmails e opts w))"
  using assms format_sendLoop [of "(r, w)" for r]
  by (simp add: sendApprovedEmails_def Let_def split_def)

lemma format_approve:
  "documented_format w \<Longrightarrow> approve fid w = Inr w' \<Longrightarrow> documented_format w'"
  unfolding approve_def by (rule format_moveFile)

lemma format_skip:
  "documented_format w \<Longrightarrow> skip fid w = Inr w' \<Longrightarrow> documented_format w'"
  unfolding skip_def by (rule format_moveFile)

end
